theory Spec2Isabelle
  imports Main
begin

section \<open>Dynamic inventory for oVirt: a shallow embedding of ovirt.py\<close>

text \<open>
  The module reads an ini file with one section per datacenter, asks the oVirt API of
  every datacenter for the virtual machines carrying the tag of each role, picks one IP
  address per running machine and assembles the inventory dictionary Ansible expects.

  Everything the module does itself is translated below, function by function, with
  the source's names. The libraries it calls are not part of the module:
  \<^item> \<open>ConfigParser.SafeConfigParser\<close> (Python 2.7) is modelled on the parsed file:
    the sections in file order, the defaults dictionary, \<open>has_option\<close>, and \<open>get\<close> with its
    interpolation of \<open>%(name)s\<close> and \<open>%%\<close> and the errors it raises. The option names the
    module asks for are the lower-case names under which the parser stores options.
  \<^item> the regular expression compiler, the builtin \<open>int\<close>, the oVirt SDK and the
    enumeration order of the keys of the dictionary \<open>_ROLES\<close> are parameters, collected in
    the record \<open>env\<close>. A theorem that does not fix them holds for every choice.
  \<^item> for the two statements about the default pattern, a fragment of Python's regular
    expressions is interpreted (section \<open>A fragment of Python's regular expressions\<close>).
\<close>

subsection \<open>Exceptions\<close>

datatype error =
    NoSectionError string
  | NoOptionError string string
  | InterpolationSyntaxError string string
  | InterpolationMissingOptionError string string string
  | InterpolationDepthError string string
  | AttributeError
  | KeyError string
  | TypeError
  | ValueError
  | ReError
  | UnsupportedPattern
  | UnsupportedLiteral
  | ConnectionError
  | QueryError

text \<open>
  Sequencing with exceptions: \<open>and_then m f\<close> runs \<open>m\<close> and, unless it raised, goes on with
  \<open>f\<close> on its value.
\<close>

definition and_then :: "error + 'a \<Rightarrow> ('a \<Rightarrow> error + 'b) \<Rightarrow> error + 'b" where
  "and_then m f = (case m of Inl e \<Rightarrow> Inl e | Inr x \<Rightarrow> f x)"

subsection \<open>Configuration keys\<close>

definition OVIRT_API_INSECURE :: string where "OVIRT_API_INSECURE = ''ovirt_api_insecure''"
definition OVIRT_CA :: string where "OVIRT_CA = ''ovirt_ca''"
definition OVIRT_IP_REGEX :: string where "OVIRT_IP_REGEX = ''ovirt_ip_regex''"
definition OVIRT_NIC_NAME :: string where "OVIRT_NIC_NAME = ''ovirt_nic_name''"
definition OVIRT_PASSWORD :: string where "OVIRT_PASSWORD = ''ovirt_password''"
definition OVIRT_TAG_CONTROL :: string where "OVIRT_TAG_CONTROL = ''ovirt_tag_control''"
definition OVIRT_TAG_WORKER :: string where "OVIRT_TAG_WORKER = ''ovirt_tag_worker''"
definition OVIRT_URL :: string where "OVIRT_URL = ''ovirt_url''"
definition OVIRT_USERNAME :: string where "OVIRT_USERNAME = ''ovirt_username''"
definition OVIRT_DC :: string where "OVIRT_DC = ''ovirt_dc''"

definition ANSIBLE_SSH_PK :: string where "ANSIBLE_SSH_PK = ''ansible_ssh_private_key_file''"
definition ANSIBLE_SSH_PORT :: string where "ANSIBLE_SSH_PORT = ''ansible_ssh_port''"
definition ANSIBLE_SSH_USER :: string where "ANSIBLE_SSH_USER = ''ansible_ssh_user''"
definition ANSIBLE_SSH_PASS :: string where "ANSIBLE_SSH_PASS = ''ansible_ssh_pass''"

definition CONSUL_DC :: string where "CONSUL_DC = ''consul_dc''"

subsection \<open>The configuration store\<close>

text \<open>
  The parsed ini file: the options of its \<open>[DEFAULT]\<close> section and its other sections
  in file order. The parser accepts only \<open>name = value\<close> lines, so every value read from
  the file is a string (possibly empty).
\<close>

record config_file =
  file_defaults :: "string \<rightharpoonup> string"
  file_sections :: "(string \<times> (string \<rightharpoonup> string)) list"

text \<open>
  The parser object: \<open>_defaults\<close> and \<open>_sections\<close>. A default passed to the constructor
  may be Python's \<open>None\<close>, hence \<open>string option\<close> as the type of a value.
\<close>

record config =
  cp_defaults :: "string \<rightharpoonup> string option"
  cp_sections :: "(string \<times> (string \<rightharpoonup> string)) list"

text \<open>The backslash, and the default pattern \<^verbatim>\<open>^(\d+).(\d+).(\d+).(\d+)$\<close> of \<open>__init__\<close>.\<close>

definition backslash :: char where
  "backslash = CHR 0x5C"

definition default_ip_regex :: string where
  "default_ip_regex =
     ''^('' @ [backslash] @ ''d+).('' @ [backslash] @ ''d+).('' @ [backslash] @ ''d+).(''
       @ [backslash] @ ''d+)$''"

definition init_defaults :: "string \<rightharpoonup> string option" where
  "init_defaults =
     [OVIRT_IP_REGEX \<mapsto> Some default_ip_regex,
      OVIRT_NIC_NAME \<mapsto> None,
      OVIRT_TAG_CONTROL \<mapsto> Some ''mi-control'',
      OVIRT_TAG_WORKER \<mapsto> Some ''mi-worker'']"

text \<open>
  The dictionary the parser keeps for a section: its options and, unless the section has
  an option of that name, the key \<open>__name__\<close> with the name of the section.
\<close>

definition section_dict :: "string \<times> (string \<rightharpoonup> string) \<Rightarrow> string \<times> (string \<rightharpoonup> string)" where
  "section_dict sec =
     (fst sec,
      (\<lambda>k. case snd sec k of
             Some v \<Rightarrow> Some v
           | None \<Rightarrow> (if k = ''__name__'' then Some (fst sec) else None)))"

text \<open>
  \<open>OVirtInventory.__init__\<close>: the constructor defaults, overridden by the \<open>[DEFAULT]\<close>
  section of the file that \<open>read\<close> loads.
\<close>

definition OVirtInventory_init :: "config_file \<Rightarrow> config" where
  "OVirtInventory_init f =
     \<lparr>cp_defaults =
        (\<lambda>k. case file_defaults f k of Some v \<Rightarrow> Some (Some v) | None \<Rightarrow> init_defaults k),
      cp_sections = map section_dict (file_sections f)\<rparr>"

definition DEFAULTSECT :: string where
  "DEFAULTSECT = ''DEFAULT''"

text \<open>
  The mapping \<open>get\<close> looks options up in: the dictionary of the section, then the defaults;
  the defaults alone for \<open>DEFAULT\<close> when the file has no section of that name.
\<close>

definition chainmap :: "config \<Rightarrow> string \<Rightarrow> (string \<rightharpoonup> string option)" where
  "chainmap cfg section k =
     (case map_of (cp_sections cfg) section of
        None \<Rightarrow> cp_defaults cfg k
      | Some sectiondict \<Rightarrow>
          (case sectiondict k of Some v \<Rightarrow> Some (Some v) | None \<Rightarrow> cp_defaults cfg k))"

text \<open>\<open>optionxform\<close>: \<open>str.lower\<close>.\<close>

definition lower_char :: "char \<Rightarrow> char" where
  "lower_char c =
     (case map_of (zip ''ABCDEFGHIJKLMNOPQRSTUVWXYZ'' ''abcdefghijklmnopqrstuvwxyz'') c of
        Some l \<Rightarrow> l
      | None \<Rightarrow> c)"

definition optionxform :: "string \<Rightarrow> string" where
  "optionxform name = map lower_char name"

definition MAX_INTERPOLATION_DEPTH :: nat where
  "MAX_INTERPOLATION_DEPTH = 10"

text \<open>
  The match of \<^verbatim>\<open>%\(([^)]+)\)s\<close> on a text that starts with \<open>%(\<close>, given what follows
  these two characters: the name referred to and the text after the reference.
\<close>

definition var_reference :: "string \<Rightarrow> (string \<times> string) option" where
  "var_reference cs =
     (case dropWhile (\<lambda>c. c \<noteq> CHR '')'') cs of
        c1 # c2 # rest \<Rightarrow>
          (if takeWhile (\<lambda>c. c \<noteq> CHR '')'') cs \<noteq> [] \<and> c2 = CHR ''s''
           then Some (takeWhile (\<lambda>c. c \<noteq> CHR '')'') cs, rest)
           else None)
      | _ \<Rightarrow> None)"

text \<open>The text after a reference is shorter than the text it was found in.\<close>

lemma var_reference_shorter:
  assumes "var_reference cs = Some (name, rest)"
  shows "length rest < length cs"
proof -
  from assms obtain c1 c2 where "dropWhile (\<lambda>c. c \<noteq> CHR '')'') cs = c1 # c2 # rest"
    by (auto simp: var_reference_def split: list.splits if_splits)
  then have "length (dropWhile (\<lambda>c. c \<noteq> CHR '')'') cs) = Suc (Suc (length rest))"
    by simp
  moreover have "length (dropWhile (\<lambda>c. c \<noteq> CHR '')'') cs) \<le> length cs"
    by (rule length_dropWhile_le)
  ultimately show ?thesis by simp
qed

text \<open>
  \<open>SafeConfigParser._interpolate_some\<close>: the text is copied up to each \<open>%\<close>; \<open>%%\<close> gives
  \<open>%\<close>; \<open>%(name)s\<close> gives the value of the option \<open>name\<close>, interpolated in turn, one level
  deeper, when it holds a \<open>%\<close>; any other use of \<open>%\<close> is an error. A value \<open>None\<close> fails the
  test \<open>"%" in v\<close> with \<open>TypeError\<close>.
\<close>

function interpolate_some ::
  "string \<Rightarrow> string \<Rightarrow> (string \<rightharpoonup> string option) \<Rightarrow> nat \<Rightarrow> string \<Rightarrow> error + string"
where
  "interpolate_some opt section m depth rest =
     (if depth > MAX_INTERPOLATION_DEPTH then Inl (InterpolationDepthError opt section)
      else
        (case rest of
           [] \<Rightarrow> Inr []
         | c # cs \<Rightarrow>
             (if c \<noteq> CHR ''%''
              then and_then (interpolate_some opt section m depth cs) (\<lambda>t. Inr (c # t))
              else
                (case cs of
                   [] \<Rightarrow> Inl (InterpolationSyntaxError opt section)
                 | c2 # cs2 \<Rightarrow>
                     (if c2 = CHR ''%''
                      then and_then (interpolate_some opt section m depth cs2)
                             (\<lambda>t. Inr (CHR ''%'' # t))
                      else if c2 = CHR ''(''
                      then
                        (case var_reference cs2 of
                           None \<Rightarrow> Inl (InterpolationSyntaxError opt section)
                         | Some (name, rest') \<Rightarrow>
                             (case m (optionxform name) of
                                None \<Rightarrow>
                                  Inl (InterpolationMissingOptionError opt section
                                         (optionxform name))
                              | Some None \<Rightarrow> Inl TypeError
                              | Some (Some v) \<Rightarrow>
                                  and_then
                                    (if CHR ''%'' \<in> set v
                                     then interpolate_some opt section m (depth + 1) v
                                     else Inr v)
                                    (\<lambda>a. and_then (interpolate_some opt section m depth rest')
                                           (\<lambda>t. Inr (a @ t)))))
                      else Inl (InterpolationSyntaxError opt section))))))"
  by pat_completeness auto
termination
  by (relation "measures [\<lambda>(opt, section, m, depth, rest). Suc MAX_INTERPOLATION_DEPTH - depth,
                          \<lambda>(opt, section, m, depth, rest). length rest]")
    (auto dest: var_reference_shorter)

declare interpolate_some.simps [simp del]

text \<open>\<open>SafeConfigParser._interpolate\<close>: interpolation starts at depth 1.\<close>

definition interpolate :: "config \<Rightarrow> string \<Rightarrow> string \<Rightarrow> string \<Rightarrow> error + string" where
  "interpolate cfg section opt rawval =
     interpolate_some opt section (chainmap cfg section) 1 rawval"

text \<open>
  \<open>ConfigParser.get(section, option)\<close>, of \<open>SafeConfigParser\<close>: a value \<open>None\<close> is returned
  as it is, any other value is interpolated.
\<close>

definition config_get :: "config \<Rightarrow> string \<Rightarrow> string \<Rightarrow> error + string option" where
  "config_get cfg section opt =
     (if map_of (cp_sections cfg) section = None \<and> section \<noteq> DEFAULTSECT
      then Inl (NoSectionError section)
      else
        (case chainmap cfg section opt of
           None \<Rightarrow> Inl (NoOptionError opt section)
         | Some None \<Rightarrow> Inr None
         | Some (Some value) \<Rightarrow>
             and_then (interpolate cfg section opt value) (\<lambda>s. Inr (Some s))))"

text \<open>\<open>ConfigParser.has_option(section, option)\<close>.\<close>

definition has_option :: "config \<Rightarrow> string \<Rightarrow> string \<Rightarrow> bool" where
  "has_option cfg section opt =
     (if section = [] \<or> section = DEFAULTSECT then cp_defaults cfg opt \<noteq> None
      else (case map_of (cp_sections cfg) section of
              None \<Rightarrow> False
            | Some sectiondict \<Rightarrow> sectiondict opt \<noteq> None \<or> cp_defaults cfg opt \<noteq> None))"

text \<open>The property \<open>datacenters\<close>: \<open>config.sections()\<close>.\<close>

definition datacenters :: "config \<Rightarrow> string list" where
  "datacenters cfg = map fst (cp_sections cfg)"

subsection \<open>Virtual machine records\<close>

text \<open>
  Modelled from the spec: the classes of the oVirt SDK are not part of the module. A VM
  record "has a status/state and a collection of network-interface records; each
  interface has reported devices; each device has a list of IP addresses with string
  representations".
\<close>

record device =
  ips :: "string list"

record nic =
  if_name :: string
  reported_devices :: "device list"

record vm =
  state :: string
  nics :: "nic list"

text \<open>
  \<open>vm.get_nics().get(name=...)\<close>: the first interface of that name, and Python's \<open>None\<close>
  when the VM has none.
\<close>

definition nics_get :: "vm \<Rightarrow> string \<Rightarrow> nic option" where
  "nics_get v name = find (\<lambda>n. if_name n = name) (nics v)"

subsection \<open>The surroundings of the module\<close>

text \<open>The keyword arguments \<open>api\<close> passes to the SDK's \<open>API\<close>.\<close>

record api_kwargs =
  kw_password :: "string option"
  kw_url :: "string option"
  kw_username :: "string option"
  kw_ca_file :: "string option option"
  kw_insecure :: "bool option"

text \<open>The two orders in which \<open>_ROLES.keys()\<close> may enumerate the dictionary.\<close>

datatype keys_order = ControlWorker | WorkerControl

text \<open>
  \<open>regex_compile p\<close> is \<open>re.compile(p)\<close>: an error, or the predicate
  \<open>\<lambda>s. pattern.match(s) is not None\<close>. \<open>py_int\<close> is the builtin \<open>int\<close> on a string.
  \<open>api_vms_list kwargs query\<close> is \<open>API(**kwargs).vms.list(query=query)\<close>.
\<close>

record env =
  regex_compile :: "string \<Rightarrow> error + (string \<Rightarrow> bool)"
  py_int :: "string \<Rightarrow> error + int"
  api_vms_list :: "api_kwargs \<Rightarrow> string \<Rightarrow> error + vm list"
  roles_order :: keys_order

subsection \<open>Small pieces of Python\<close>

text \<open>\<open>sep.join(xs)\<close>.\<close>

fun join :: "string \<Rightarrow> string list \<Rightarrow> string" where
  "join sep [] = []"
| "join sep [x] = x"
| "join sep (x # y # ys) = x @ sep @ join sep (y # ys)"

text \<open>\<open>'{0:s}'.format(x)\<close> and \<open>str(x)\<close>, on a string or \<open>None\<close>.\<close>

definition format_s :: "string option \<Rightarrow> string" where
  "format_s x = (case x of None \<Rightarrow> ''None'' | Some s \<Rightarrow> s)"

definition py_str :: "string option \<Rightarrow> string" where
  "py_str x = (case x of None \<Rightarrow> ''None'' | Some s \<Rightarrow> s)"

text \<open>\<open>bool(x)\<close>, on a string or \<open>None\<close>.\<close>

definition py_bool :: "string option \<Rightarrow> bool" where
  "py_bool x = (case x of None \<Rightarrow> False | Some s \<Rightarrow> s \<noteq> [])"

text \<open>A loop whose body may raise: the first exception ends it.\<close>

fun for_each :: "('a \<Rightarrow> 's \<Rightarrow> error + 's) \<Rightarrow> 'a list \<Rightarrow> 's \<Rightarrow> error + 's" where
  "for_each body [] s = Inr s"
| "for_each body (x # xs) s = and_then (body x s) (for_each body xs)"

subsection \<open>\<open>OVirtInventory.api\<close>\<close>

definition api :: "config \<Rightarrow> string \<Rightarrow> error + api_kwargs" where
  "api cfg dc =
     and_then (config_get cfg dc OVIRT_PASSWORD) (\<lambda>password.
     and_then (config_get cfg dc OVIRT_URL) (\<lambda>url.
     and_then (config_get cfg dc OVIRT_USERNAME) (\<lambda>username.
     and_then (if has_option cfg dc OVIRT_CA
               then and_then (config_get cfg dc OVIRT_CA) (\<lambda>v. Inr (Some v))
               else Inr None) (\<lambda>ca_file.
     and_then (if has_option cfg dc OVIRT_API_INSECURE
               then and_then (config_get cfg dc OVIRT_API_INSECURE) (\<lambda>v. Inr (Some (py_bool v)))
               else Inr None) (\<lambda>insecure.
     Inr \<lparr>kw_password = password, kw_url = url, kw_username = username,
          kw_ca_file = ca_file, kw_insecure = insecure\<rparr>)))))"

subsection \<open>\<open>OVirtInventory.ip\<close>\<close>

text \<open>
  The first loop of \<open>ip\<close>. An element of \<open>nics\<close> is an interface or \<open>None\<close>; calling
  \<open>get_reported_devices\<close> on \<open>None\<close> raises \<open>AttributeError\<close>.
\<close>

fun collect_ips :: "nic option list \<Rightarrow> string list \<Rightarrow> error + string list" where
  "collect_ips [] acc = Inr acc"
| "collect_ips (None # ns) acc = Inl AttributeError"
| "collect_ips (Some n # ns) acc =
     collect_ips ns (fold (\<lambda>d a. a @ ips d) (reported_devices n) acc)"

text \<open>The second loop of \<open>ip\<close>.\<close>

fun first_match :: "(string \<Rightarrow> bool) \<Rightarrow> string list \<Rightarrow> string option" where
  "first_match pattern [] = None"
| "first_match pattern (a # as) =
     (if \<not> pattern a then first_match pattern as else Some a)"

definition ip :: "env \<Rightarrow> config \<Rightarrow> string \<Rightarrow> vm \<Rightarrow> error + string option" where
  "ip en cfg dc v =
     and_then (config_get cfg dc OVIRT_NIC_NAME) (\<lambda>nic_name.
     and_then (config_get cfg dc OVIRT_IP_REGEX) (\<lambda>ip_regex.
     and_then (regex_compile en (case ip_regex of None \<Rightarrow> [] | Some r \<Rightarrow> r)) (\<lambda>pattern.
     and_then (collect_ips
                 (case nic_name of
                    Some name \<Rightarrow> [nics_get v (''nic_'' @ format_s (Some name))]
                  | None \<Rightarrow> map Some (nics v)) []) (\<lambda>addrs.
     Inr (first_match pattern addrs)))))"

subsection \<open>\<open>OVirtInventory.hosts\<close>\<close>

text \<open>Lines 158 to 169: the query expression.\<close>

definition hosts_query :: "config \<Rightarrow> string \<Rightarrow> string option \<Rightarrow> error + string" where
  "hosts_query cfg dc tag =
     and_then (if has_option cfg dc OVIRT_DC then config_get cfg dc OVIRT_DC else Inr (Some dc))
       (\<lambda>ovirt_dc.
          Inr (join '' and ''
                 ([''datacenter='' @ format_s ovirt_dc]
                  @ (case tag of Some t \<Rightarrow> [''tag='' @ format_s (Some t)] | None \<Rightarrow> []))))"

text \<open>The body of the loop over the VMs the API returned.\<close>

definition hosts_vm :: "env \<Rightarrow> config \<Rightarrow> string \<Rightarrow> vm \<Rightarrow> string list \<Rightarrow> error + string list" where
  "hosts_vm en cfg dc v hs =
     (if state v = ''up''
      then and_then (ip en cfg dc v)
             (\<lambda>a. case a of None \<Rightarrow> Inr hs | Some a' \<Rightarrow> Inr (hs @ [a']))
      else Inr hs)"

definition hosts :: "env \<Rightarrow> config \<Rightarrow> string \<Rightarrow> string option \<Rightarrow> error + string list" where
  "hosts en cfg dc tag =
     and_then (hosts_query cfg dc tag) (\<lambda>query.
     and_then (api cfg dc) (\<lambda>kwargs.
     and_then (api_vms_list en kwargs query) (\<lambda>vms.
     for_each (hosts_vm en cfg dc) vms [])))"

subsection \<open>\<open>OVirtInventory.inventory\<close>\<close>

text \<open>A value of a group variable: \<open>str\<close> or \<open>int\<close>.\<close>

datatype pyval = PyStr string | PyInt int

text \<open>
  The dictionaries stored under the keys of \<open>data\<close> have keys among \<open>hosts\<close>, \<open>vars\<close> and
  \<open>hostvars\<close>; a field is \<open>None\<close> when the dictionary lacks the key.
\<close>

record entry =
  g_hosts :: "string list option"
  g_vars :: "(string \<rightharpoonup> pyval) option"
  g_hostvars :: "(string \<rightharpoonup> (string \<rightharpoonup> string)) option"

type_synonym document = "string \<rightharpoonup> entry"

definition ROLES :: "string \<rightharpoonup> string" where
  "ROLES = [''control'' \<mapsto> OVIRT_TAG_CONTROL, ''worker'' \<mapsto> OVIRT_TAG_WORKER]"

definition ROLES_keys :: "keys_order \<Rightarrow> string list" where
  "ROLES_keys ord =
     (case ord of ControlWorker \<Rightarrow> [''control'', ''worker'']
                | WorkerControl \<Rightarrow> [''worker'', ''control''])"

text \<open>\<open>_DC_OPT_VARS\<close>: the conversion is \<open>str\<close> (\<open>False\<close>) or \<open>int\<close> (\<open>True\<close>).\<close>

definition DC_OPT_VARS :: "(string \<times> bool) list" where
  "DC_OPT_VARS =
     [(ANSIBLE_SSH_USER, False), (ANSIBLE_SSH_PK, False),
      (ANSIBLE_SSH_PORT, True), (ANSIBLE_SSH_PASS, False)]"

text \<open>The conversion \<open>cfg[1]\<close> applied to a value; \<open>int(None)\<close> raises \<open>TypeError\<close>.\<close>

definition convert :: "env \<Rightarrow> bool \<Rightarrow> string option \<Rightarrow> error + pyval" where
  "convert en to_int v =
     (if to_int
      then (case v of
              None \<Rightarrow> Inl TypeError
            | Some s \<Rightarrow> and_then (py_int en s) (\<lambda>i. Inr (PyInt i)))
      else Inr (PyStr (py_str v)))"

text \<open>One step of the dictionary comprehension that builds \<open>vars\<close>.\<close>

definition dc_var ::
  "env \<Rightarrow> config \<Rightarrow> string \<Rightarrow> string \<times> bool \<Rightarrow> (string \<rightharpoonup> pyval) \<Rightarrow> error + (string \<rightharpoonup> pyval)"
where
  "dc_var en cfg dc c vs =
     (if has_option cfg dc (fst c)
      then and_then (config_get cfg dc (fst c)) (\<lambda>v.
           and_then (convert en (snd c) v) (\<lambda>x. Inr (vs(fst c \<mapsto> x))))
      else Inr vs)"

text \<open>\<open>data[key]['hosts'].extend(hs)\<close>.\<close>

definition extend_hosts :: "string \<Rightarrow> string list \<Rightarrow> document \<Rightarrow> error + document" where
  "extend_hosts key hs data =
     (case data key of
        None \<Rightarrow> Inl (KeyError key)
      | Some e \<Rightarrow>
          (case g_hosts e of
             None \<Rightarrow> Inl (KeyError ''hosts'')
           | Some old \<Rightarrow> Inr (data(key \<mapsto> e\<lparr>g_hosts := Some (old @ hs)\<rparr>))))"

text \<open>\<open>data[key]['vars'][name] = x\<close>.\<close>

definition set_var :: "string \<Rightarrow> string \<Rightarrow> pyval \<Rightarrow> document \<Rightarrow> error + document" where
  "set_var key name x data =
     (case data key of
        None \<Rightarrow> Inl (KeyError key)
      | Some e \<Rightarrow>
          (case g_vars e of
             None \<Rightarrow> Inl (KeyError ''vars'')
           | Some vs \<Rightarrow> Inr (data(key \<mapsto> e\<lparr>g_vars := Some (vs(name \<mapsto> x))\<rparr>))))"

text \<open>\<open>data['_meta']['hostvars'][host] = hostvars\<close>.\<close>

definition set_hostvars ::
  "(string \<rightharpoonup> string) \<Rightarrow> string \<Rightarrow> document \<Rightarrow> error + document"
where
  "set_hostvars hostvars host data =
     (case data ''_meta'' of
        None \<Rightarrow> Inl (KeyError ''_meta'')
      | Some e \<Rightarrow>
          (case g_hostvars e of
             None \<Rightarrow> Inl (KeyError ''hostvars'')
           | Some hv \<Rightarrow> Inr (data(''_meta'' \<mapsto> e\<lparr>g_hostvars := Some (hv(host \<mapsto> hostvars))\<rparr>))))"

text \<open>The variables of the hosts of one role in one datacenter (lines 211 to 220).\<close>

definition role_hostvars :: "config \<Rightarrow> string \<Rightarrow> string \<Rightarrow> error + (string \<rightharpoonup> string)" where
  "role_hostvars cfg dc role =
     and_then (if has_option cfg dc CONSUL_DC then config_get cfg dc CONSUL_DC else Inr (Some dc))
       (\<lambda>consul_dc. Inr [''role'' \<mapsto> role, ''dc'' \<mapsto> dc, ''consul_dc'' \<mapsto> py_str consul_dc])"

text \<open>
  The tag of a role in a datacenter (line 206). \<open>_ROLES.get(role)\<close> is \<open>None\<close> for a name
  that is no role, and \<open>config.get\<close> fails on \<open>None\<close> as an option name.
\<close>

definition role_tag :: "config \<Rightarrow> string \<Rightarrow> string \<Rightarrow> error + string option" where
  "role_tag cfg dc role =
     (case ROLES role of
        None \<Rightarrow> Inl AttributeError
      | Some key \<Rightarrow> config_get cfg dc key)"

text \<open>Lines 208 and 209: the group of a role is created when \<open>data\<close> has no such key.\<close>

definition ensure_group :: "string \<Rightarrow> document \<Rightarrow> document" where
  "ensure_group grp data =
     (if data grp = None
      then data(grp \<mapsto> \<lparr>g_hosts = Some [], g_vars = None, g_hostvars = None\<rparr>)
      else data)"

text \<open>The body of the loop over the roles.\<close>

definition inventory_role ::
  "env \<Rightarrow> config \<Rightarrow> string \<Rightarrow> string \<Rightarrow> document \<Rightarrow> error + document"
where
  "inventory_role en cfg dc role data =
     and_then (role_tag cfg dc role) (\<lambda>tag.
     (let data0 = ensure_group (''role='' @ format_s (Some role)) data in
      and_then (role_hostvars cfg dc role) (\<lambda>hostvars.
      and_then (hosts en cfg dc tag) (\<lambda>hs.
      and_then (extend_hosts (''role='' @ format_s (Some role)) hs data0) (\<lambda>data1.
      and_then (extend_hosts dc hs data1) (\<lambda>data2.
      for_each (set_hostvars hostvars) hs data2))))))"

text \<open>The body of the loop over the datacenters.\<close>

definition inventory_dc :: "env \<Rightarrow> config \<Rightarrow> string \<Rightarrow> document \<Rightarrow> error + document" where
  "inventory_dc en cfg dc data =
     and_then (for_each (dc_var en cfg dc) DC_OPT_VARS Map.empty) (\<lambda>vs.
     and_then (set_var dc ''dc'' (PyStr dc)
                 (data(dc \<mapsto> \<lparr>g_hosts = Some [], g_vars = Some vs, g_hostvars = None\<rparr>)))
       (\<lambda>data1.
     for_each (inventory_role en cfg dc) (ROLES_keys (roles_order en)) data1))"

definition initial_data :: document where
  "initial_data = [''_meta'' \<mapsto> \<lparr>g_hosts = None, g_vars = None, g_hostvars = Some Map.empty\<rparr>]"

definition inventory :: "env \<Rightarrow> config \<Rightarrow> error + document" where
  "inventory en cfg = for_each (inventory_dc en cfg) (datacenters cfg) initial_data"

subsection \<open>A fragment of Python's regular expressions\<close>

text \<open>
  Modelled from the documentation of Python's module \<open>re\<close>, which is not part of the
  module: the patterns built from \<open>^\<close>, \<open>$\<close>, \<open>.\<close>, \<open>\d\<close>, an escaped punctuation
  character, a literal character, a group in parentheses and the repetition \<open>+\<close>.
  \<open>^\<close> matches at the start of the string only, \<open>$\<close> at its end or before a newline that
  ends it, \<open>.\<close> any character except a newline, \<open>\d\<close> a decimal digit. The empty pattern
  matches every string. Any other pattern is outside the fragment: \<open>re_compile\<close> answers
  \<open>UnsupportedPattern\<close> for it, and nothing is stated about it.
\<close>

datatype rx = Empty | Bol | Eol | AnyChar | Digit | Lit char | Grp rx | Seq rx rx | Plus rx

definition newline :: char where
  "newline = CHR 0x0A"

definition is_digit :: "char \<Rightarrow> bool" where
  "is_digit c = (c \<in> set ''0123456789'')"

text \<open>The items of a sequence, in order.\<close>

fun seq_of :: "rx list \<Rightarrow> rx" where
  "seq_of [] = Empty"
| "seq_of [r] = r"
| "seq_of (r # rs) = Seq r (seq_of rs)"

text \<open>What \<open>+\<close> may follow in the fragment.\<close>

fun repeatable :: "rx \<Rightarrow> bool" where
  "repeatable Bol = False"
| "repeatable Eol = False"
| "repeatable (Plus r) = False"
| "repeatable r = True"

text \<open>
  The parser reads the pattern from left to right. \<open>esc\<close> says that the last character was
  a backslash; the stack holds, innermost group first, the items read so far in each
  open group, last item first.
\<close>

fun rx_parse_from :: "bool \<Rightarrow> rx list list \<Rightarrow> string \<Rightarrow> rx option" where
  "rx_parse_from esc st [] =
     (if esc then None
      else (case st of [items] \<Rightarrow> Some (seq_of (rev items)) | _ \<Rightarrow> None))"
| "rx_parse_from esc [] (c # cs) = None"
| "rx_parse_from esc (items # st) (c # cs) =
     (if esc then
        (if c = CHR ''d'' then rx_parse_from False ((Digit # items) # st) cs
         else if c \<in> set ''.^$+()'' \<or> c = backslash
         then rx_parse_from False ((Lit c # items) # st) cs
         else None)
      else if c = backslash then rx_parse_from True (items # st) cs
      else if c = CHR ''^'' then rx_parse_from False ((Bol # items) # st) cs
      else if c = CHR ''$'' then rx_parse_from False ((Eol # items) # st) cs
      else if c = CHR ''.'' then rx_parse_from False ((AnyChar # items) # st) cs
      else if c = CHR ''('' then rx_parse_from False ([] # items # st) cs
      else if c = CHR '')'' then
        (case st of
           [] \<Rightarrow> None
         | outer # st' \<Rightarrow> rx_parse_from False ((Grp (seq_of (rev items)) # outer) # st') cs)
      else if c = CHR ''+'' then
        (case items of
           [] \<Rightarrow> None
         | r # rest \<Rightarrow>
             (if repeatable r then rx_parse_from False ((Plus r # rest) # st) cs else None))
      else if c \<in> set ''*?{}[]|'' then None
      else rx_parse_from False ((Lit c # items) # st) cs)"

definition rx_parse :: "string \<Rightarrow> rx option" where
  "rx_parse p = rx_parse_from False [[]] p"

text \<open>
  A state of a match: whether no character has been consumed yet, and the rest of the
  string. \<open>rx_run r S\<close> lists the states in which a match of \<open>r\<close> begun in a state of \<open>S\<close>
  can end.
\<close>

type_synonym rx_state = "bool \<times> string"

definition eat :: "(char \<Rightarrow> bool) \<Rightarrow> rx_state \<Rightarrow> rx_state list" where
  "eat p st = (case snd st of [] \<Rightarrow> [] | c # t \<Rightarrow> if p c then [(False, t)] else [])"

text \<open>
  One or more rounds of \<open>f\<close>. A round that consumes nothing changes no state, so as many
  rounds as the longest rest has characters, and one more, reach every end state.
\<close>

primrec rx_plus ::
  "(rx_state list \<Rightarrow> rx_state list) \<Rightarrow> nat \<Rightarrow> rx_state list \<Rightarrow> rx_state list"
where
  "rx_plus f 0 S = []"
| "rx_plus f (Suc n) S = f S @ rx_plus f n (f S)"

definition fuel :: "rx_state list \<Rightarrow> nat" where
  "fuel S = Suc (fold max (map (\<lambda>st. length (snd st)) S) 0)"

primrec rx_run :: "rx \<Rightarrow> rx_state list \<Rightarrow> rx_state list" where
  "rx_run Empty S = S"
| "rx_run Bol S = filter fst S"
| "rx_run Eol S = filter (\<lambda>st. snd st = [] \<or> snd st = [newline]) S"
| "rx_run AnyChar S = concat (map (eat (\<lambda>c. c \<noteq> newline)) S)"
| "rx_run Digit S = concat (map (eat is_digit) S)"
| "rx_run (Lit a) S = concat (map (eat (\<lambda>c. c = a)) S)"
| "rx_run (Grp r) S = rx_run r S"
| "rx_run (Seq r1 r2) S = rx_run r2 (rx_run r1 S)"
| "rx_run (Plus r) S = rx_plus (rx_run r) (fuel S) S"

text \<open>\<open>pattern.match(s) is not None\<close>: a match that starts at the first character and may end anywhere.\<close>

definition rx_match :: "rx \<Rightarrow> string \<Rightarrow> bool" where
  "rx_match r s = (rx_run r [(True, s)] \<noteq> [])"

text \<open>\<open>re.compile\<close> on the fragment.\<close>

definition re_compile :: "string \<Rightarrow> error + (string \<Rightarrow> bool)" where
  "re_compile p =
     (case rx_parse p of None \<Rightarrow> Inl UnsupportedPattern | Some r \<Rightarrow> Inr (rx_match r))"

subsection \<open>A fragment of the builtin \<open>int\<close>\<close>

text \<open>
  \<open>int\<close> on a non-empty string of decimal digits. Any other string is outside the
  fragment: \<open>int_digits\<close> answers \<open>UnsupportedLiteral\<close> for it, and nothing is stated
  about it.
\<close>

definition int_digits :: "string \<Rightarrow> error + int" where
  "int_digits s =
     (if s \<noteq> [] \<and> list_all is_digit s
      then Inr (fold (\<lambda>c n. 10 * n + (of_char c - 48)) s 0)
      else Inl UnsupportedLiteral)"

subsection \<open>Reading a result\<close>

text \<open>
  \<open>data[key].get('hosts')\<close>, \<open>data[key].get('vars')\<close> and
  \<open>data['_meta'].get('hostvars')[host]\<close> on the result of \<open>inventory\<close>. The outer \<open>option\<close>
  tells whether \<open>data\<close> has the key, the next whether the dictionary found there has the
  key \<open>hosts\<close>, \<open>vars\<close> or \<open>hostvars\<close>.
\<close>

definition hosts_of :: "string \<Rightarrow> error + document \<Rightarrow> error + string list option option" where
  "hosts_of key r = and_then r (\<lambda>data. Inr (map_option g_hosts (data key)))"

definition vars_of ::
  "string \<Rightarrow> error + document \<Rightarrow> error + (string \<rightharpoonup> pyval) option option"
where
  "vars_of key r = and_then r (\<lambda>data. Inr (map_option g_vars (data key)))"

definition hostvars_of ::
  "string \<Rightarrow> error + document \<Rightarrow> error + (string \<rightharpoonup> string) option option option"
where
  "hostvars_of host r =
     and_then r (\<lambda>data.
       Inr (map_option (\<lambda>e. map_option (\<lambda>hv. hv host) (g_hostvars e)) (data ''_meta'')))"

subsection \<open>Scenarios\<close>

text \<open>A VM with one interface, one reported device and one address.\<close>

definition one_ip_vm :: "string \<Rightarrow> string \<Rightarrow> string \<Rightarrow> vm" where
  "one_ip_vm st name addr =
     \<lparr>state = st, nics = [\<lparr>if_name = name, reported_devices = [\<lparr>ips = [addr]\<rparr>]\<rparr>]\<rparr>"

text \<open>An API that answers each listed query with its VMs and any other query with none.\<close>

definition canned_api :: "(string \<times> vm list) list \<Rightarrow> api_kwargs \<Rightarrow> string \<Rightarrow> error + vm list" where
  "canned_api answers kwargs query =
     (case map_of answers query of None \<Rightarrow> Inr [] | Some vms \<Rightarrow> Inr vms)"

text \<open>An API that fails on one query and answers any other with no VM.\<close>

definition failing_api :: "string \<Rightarrow> error \<Rightarrow> api_kwargs \<Rightarrow> string \<Rightarrow> error + vm list" where
  "failing_api q e kwargs query = (if query = q then Inl e else Inr [])"

text \<open>The surroundings with the two fragments in place of \<open>re.compile\<close> and \<open>int\<close>.\<close>

definition python_env :: "(api_kwargs \<Rightarrow> string \<Rightarrow> error + vm list) \<Rightarrow> keys_order \<Rightarrow> env" where
  "python_env a ord =
     \<lparr>regex_compile = re_compile, py_int = int_digits, api_vms_list = a, roles_order = ord\<rparr>"

text \<open>The mandatory options of a section, and a file with the sections given.\<close>

definition credentials :: "string \<rightharpoonup> string" where
  "credentials =
     [OVIRT_URL \<mapsto> ''https://ovirt.example.com/api'',
      OVIRT_USERNAME \<mapsto> ''admin@internal'',
      OVIRT_PASSWORD \<mapsto> ''secret'']"

definition ini_file :: "(string \<times> (string \<rightharpoonup> string)) list \<Rightarrow> config" where
  "ini_file sections =
     OVirtInventory_init \<lparr>file_defaults = Map.empty, file_sections = sections\<rparr>"

text \<open>One datacenter \<open>dc1\<close> with nothing but its credentials.\<close>

definition dc1_cfg :: config where
  "dc1_cfg = ini_file [(''dc1'', credentials)]"

text \<open>The API knows one VM, tagged \<open>mi-control\<close> in \<open>dc1\<close>: up, one interface, one address.\<close>

definition control_vm_api :: "api_kwargs \<Rightarrow> string \<Rightarrow> error + vm list" where
  "control_vm_api =
     canned_api [(''datacenter=dc1 and tag=mi-control'', [one_ip_vm ''up'' ''nic1'' ''10.0.0.5''])]"

text \<open>The same, with an address that is no dotted quad.\<close>

definition undotted_api :: "api_kwargs \<Rightarrow> string \<Rightarrow> error + vm list" where
  "undotted_api =
     canned_api [(''datacenter=dc1 and tag=mi-control'', [one_ip_vm ''up'' ''nic1'' ''10a0b0c5''])]"

text \<open>
  \<open>dc1\<close> with \<open>ovirt_nic_name = eth0\<close>, and an API whose only VM has the single interface
  \<open>nic_eth1\<close>.
\<close>

definition eth0_cfg :: config where
  "eth0_cfg = ini_file [(''dc1'', credentials(OVIRT_NIC_NAME \<mapsto> ''eth0''))]"

definition eth1_api :: "api_kwargs \<Rightarrow> string \<Rightarrow> error + vm list" where
  "eth1_api =
     canned_api [(''datacenter=dc1 and tag=mi-control'', [one_ip_vm ''up'' ''nic_eth1'' ''10.0.0.5''])]"

text \<open>A file whose second section is named \<open>_meta\<close>.\<close>

definition meta_cfg :: config where
  "meta_cfg = ini_file [(''dc1'', credentials), (''_meta'', credentials)]"

text \<open>
  Two datacenters, and an API that reports the same address for a control VM of \<open>dc1\<close> and
  for a worker VM of \<open>dc2\<close>.
\<close>

definition two_dc_cfg :: config where
  "two_dc_cfg = ini_file [(''dc1'', credentials), (''dc2'', credentials)]"

definition shared_ip_api :: "api_kwargs \<Rightarrow> string \<Rightarrow> error + vm list" where
  "shared_ip_api =
     canned_api
       [(''datacenter=dc1 and tag=mi-control'', [one_ip_vm ''up'' ''nic1'' ''10.0.0.5'']),
        (''datacenter=dc2 and tag=mi-worker'', [one_ip_vm ''up'' ''nic1'' ''10.0.0.5''])]"

text \<open>
  \<open>dc1\<close> with the pattern \<open>10\<close>, and a VM with two interfaces and four addresses.
\<close>

definition prefix_cfg :: config where
  "prefix_cfg = ini_file [(''dc1'', credentials(OVIRT_IP_REGEX \<mapsto> ''10''))]"

definition two_nic_vm :: vm where
  "two_nic_vm =
     \<lparr>state = ''up'',
      nics =
        [\<lparr>if_name = ''nic_eth0'',
          reported_devices = [\<lparr>ips = [''192.168.0.1'']\<rparr>, \<lparr>ips = [''10.0.0.5'', ''10.0.0.6'']\<rparr>]\<rparr>,
         \<lparr>if_name = ''nic_eth1'', reported_devices = [\<lparr>ips = [''10.1.1.1'']\<rparr>]\<rparr>]\<rparr>"

text \<open>\<open>dc1\<close> with \<open>ovirt_nic_name\<close> set to the name given.\<close>

definition filter_cfg :: "string \<Rightarrow> config" where
  "filter_cfg name = ini_file [(''dc1'', credentials(OVIRT_NIC_NAME \<mapsto> name))]"

text \<open>A file in which \<open>dc1\<close> has \<open>ovirt_dc\<close> set to the text given.\<close>

definition alias_file :: "string \<Rightarrow> config_file" where
  "alias_file name =
     \<lparr>file_defaults = Map.empty,
      file_sections = [(''dc1'', credentials(OVIRT_DC \<mapsto> name))]\<rparr>"

text \<open>
  \<open>dc1\<close> with \<open>ovirt_api_insecure\<close> set to the value given, and with \<open>ovirt_api_insecure\<close>
  set to a reference to an option whose value is empty.
\<close>

definition insecure_cfg :: "string \<Rightarrow> config" where
  "insecure_cfg v = ini_file [(''dc1'', credentials(OVIRT_API_INSECURE \<mapsto> v))]"

definition insecure_ref_cfg :: config where
  "insecure_ref_cfg =
     ini_file [(''dc1'', credentials(''nothing'' \<mapsto> [], OVIRT_API_INSECURE \<mapsto> ''%(nothing)s''))]"

text \<open>\<open>dc1\<close> with an SSH user and an SSH port.\<close>

definition ssh_cfg :: config where
  "ssh_cfg =
     ini_file [(''dc1'', credentials(ANSIBLE_SSH_USER \<mapsto> ''core'', ANSIBLE_SSH_PORT \<mapsto> ''22''))]"

text \<open>An API that cannot be reached when asked for the workers of \<open>dc1\<close>.\<close>

definition worker_down_api :: "api_kwargs \<Rightarrow> string \<Rightarrow> error + vm list" where
  "worker_down_api = failing_api ''datacenter=dc1 and tag=mi-worker'' ConnectionError"

subsection \<open>Notions used in the statements\<close>

text \<open>
  The value configured for an option of a section of the file: the section's own, else
  the one of \<open>[DEFAULT]\<close>.
\<close>

definition configured :: "config_file \<Rightarrow> string \<Rightarrow> string \<Rightarrow> string option" where
  "configured f dc opt =
     (case map_of (file_sections f) dc of
        None \<Rightarrow> None
      | Some sd \<Rightarrow> (case sd opt of Some v \<Rightarrow> Some v | None \<Rightarrow> file_defaults f opt))"

text \<open>
  The resolved datacenter name, as the specification words it: the \<open>ovirt_dc\<close> override
  when that option is configured for the section, the section name otherwise. The
  override is the configured text as the parser interpolates it in the section.
\<close>

definition resolved_datacenter :: "config_file \<Rightarrow> string \<Rightarrow> error + string" where
  "resolved_datacenter f dc =
     (case configured f dc OVIRT_DC of
        None \<Rightarrow> Inr dc
      | Some rawval \<Rightarrow> interpolate (OVirtInventory_init f) dc OVIRT_DC rawval)"

text \<open>
  The query expression, as the specification words it: the clause \<open>datacenter=<name>\<close>,
  and the clause \<open>tag=<tagname>\<close> after the literal \<open> and \<close> when a tag is supplied.
\<close>

definition query_expression :: "string \<Rightarrow> string option \<Rightarrow> string" where
  "query_expression resolved tag =
     (case tag of
        None \<Rightarrow> ''datacenter='' @ resolved
      | Some t \<Rightarrow> ''datacenter='' @ resolved @ '' and tag='' @ t)"

text \<open>Lines 193 to 201: the group of a datacenter, with its variables.\<close>

definition dc_group :: "env \<Rightarrow> config \<Rightarrow> string \<Rightarrow> document \<Rightarrow> error + document" where
  "dc_group en cfg dc data =
     and_then (for_each (dc_var en cfg dc) DC_OPT_VARS Map.empty) (\<lambda>vs.
       set_var dc ''dc'' (PyStr dc)
         (data(dc \<mapsto> \<lparr>g_hosts = Some [], g_vars = Some vs, g_hostvars = None\<rparr>)))"

text \<open>
  The run of \<open>inventory\<close> up to the step of a role of a datacenter: the datacenters before
  it, the group of the datacenter, the roles before it.
\<close>

definition before :: "env \<Rightarrow> config \<Rightarrow> string \<Rightarrow> string \<Rightarrow> error + document" where
  "before en cfg dc role =
     and_then (for_each (inventory_dc en cfg) (takeWhile (\<lambda>x. x \<noteq> dc) (datacenters cfg))
                 initial_data) (\<lambda>data0.
     and_then (dc_group en cfg dc data0)
       (for_each (inventory_role en cfg dc)
          (takeWhile (\<lambda>r. r \<noteq> role) (ROLES_keys (roles_order en)))))"

text \<open>
  The candidate interfaces of IP resolution, as the specification words them: with a
  filter, the single interface named \<open>nic_<filter>\<close>, if the VM has one; without, every
  interface of the VM.
\<close>

definition candidate_nics :: "vm \<Rightarrow> string option \<Rightarrow> nic list option" where
  "candidate_nics v nic_filter =
     (case nic_filter of
        None \<Rightarrow> Some (nics v)
      | Some f \<Rightarrow> map_option (\<lambda>n. [n]) (find (\<lambda>n. if_name n = ''nic_'' @ f) (nics v)))"

text \<open>The addresses of interfaces: interface by interface, device by device.\<close>

definition addresses :: "nic list \<Rightarrow> string list" where
  "addresses ns = concat (map (\<lambda>n. concat (map ips (reported_devices n))) ns)"

text \<open>The surroundings in which the API returns only the VMs that are up.\<close>

definition only_up :: "env \<Rightarrow> env" where
  "only_up en =
     en\<lparr>api_vms_list :=
          (\<lambda>kwargs query.
             and_then (api_vms_list en kwargs query)
               (\<lambda>vms. Inr (filter (\<lambda>v. state v = ''up'') vms)))\<rparr>"

text \<open>
  The combinations of a datacenter and a role, in the order \<open>inventory\<close> processes them,
  the hosts each one yields and the variables it gives them.
\<close>

definition combos :: "env \<Rightarrow> config \<Rightarrow> (string \<times> string) list" where
  "combos en cfg =
     concat (map (\<lambda>dc. map (\<lambda>role. (dc, role)) (ROLES_keys (roles_order en))) (datacenters cfg))"

definition combo_hosts :: "env \<Rightarrow> config \<Rightarrow> string \<times> string \<Rightarrow> string list" where
  "combo_hosts en cfg c =
     (case and_then (role_tag cfg (fst c) (snd c)) (hosts en cfg (fst c)) of
        Inl e \<Rightarrow> []
      | Inr hs \<Rightarrow> hs)"

definition combo_vars :: "config \<Rightarrow> string \<times> string \<Rightarrow> (string \<rightharpoonup> string) option" where
  "combo_vars cfg c =
     (case role_hostvars cfg (fst c) (snd c) of Inl e \<Rightarrow> None | Inr hv \<Rightarrow> Some hv)"

text \<open>The variables of the last combination that yields the host, if any does.\<close>

definition last_writer :: "env \<Rightarrow> config \<Rightarrow> string \<Rightarrow> (string \<rightharpoonup> string) option" where
  "last_writer en cfg host =
     (case rev (filter (\<lambda>c. host \<in> set (combo_hosts en cfg c)) (combos en cfg)) of
        [] \<Rightarrow> None
      | c # cs \<Rightarrow> combo_vars cfg c)"

subsection \<open>Invariants of the loops\<close>

text \<open>
  Which of the keys \<open>hosts\<close> and \<open>vars\<close> the dictionary stored under a key of \<open>data\<close> has.
\<close>

definition shapes :: "document \<Rightarrow> string \<Rightarrow> (bool \<times> bool) option" where
  "shapes data k = map_option (\<lambda>e. (g_hosts e \<noteq> None, g_vars e \<noteq> None)) (data k)"

text \<open>
  After the datacenters \<open>P\<close>: their groups have both keys, any other group but \<open>_meta\<close> has
  \<open>hosts\<close> only.
\<close>

definition shaped :: "string set \<Rightarrow> (string \<Rightarrow> (bool \<times> bool) option) \<Rightarrow> bool" where
  "shaped P sh \<longleftrightarrow>
     (\<forall>k\<in>P. sh k = Some (True, True)) \<and>
     (\<forall>k. k \<notin> P \<and> k \<noteq> ''_meta'' \<longrightarrow> sh k = None \<or> sh k = Some (True, False))"

text \<open>
  A write is the list of hosts of a combination with the variables it gives them;
  \<open>lastw ws h\<close> is what the last write of \<open>ws\<close> that names the host \<open>h\<close> gives it.
\<close>

definition lastw ::
  "(string list \<times> (string \<rightharpoonup> string) option) list \<Rightarrow> string \<Rightarrow> (string \<rightharpoonup> string) option"
where
  "lastw ws h = (case rev (filter (\<lambda>w. h \<in> set (fst w)) ws) of [] \<Rightarrow> None | w # _ \<Rightarrow> snd w)"

definition combo_write ::
  "env \<Rightarrow> config \<Rightarrow> string \<times> string \<Rightarrow> string list \<times> (string \<rightharpoonup> string) option"
where
  "combo_write en cfg c = (combo_hosts en cfg c, combo_vars cfg c)"

text \<open>\<open>data['_meta'].get('hostvars')\<close>, and an upper bound of all host lists of \<open>data\<close>.\<close>

definition meta_hv :: "document \<Rightarrow> (string \<rightharpoonup> (string \<rightharpoonup> string)) option" where
  "meta_hv d = (case d ''_meta'' of None \<Rightarrow> None | Some m \<Rightarrow> g_hostvars m)"

definition hosts_within :: "document \<Rightarrow> string set \<Rightarrow> bool" where
  "hosts_within d A \<longleftrightarrow> (\<forall>k e hs. d k = Some e \<and> g_hosts e = Some hs \<longrightarrow> set hs \<subseteq> A)"

text \<open>After the writes \<open>ws\<close>: \<open>hostvars\<close> is their last-writer map, and it covers every host list.\<close>

definition written :: "(string list \<times> (string \<rightharpoonup> string) option) list \<Rightarrow> document \<Rightarrow> bool" where
  "written ws d \<longleftrightarrow> meta_hv d = Some (lastw ws) \<and> hosts_within d (dom (lastw ws))"

section \<open>Properties\<close>

subsection \<open>Sequencing and loops\<close>

lemma and_then_Inl [simp]: "and_then (Inl e) f = Inl e"
  by (simp add: and_then_def)

lemma and_then_Inr [simp]: "and_then (Inr x) f = f x"
  by (simp add: and_then_def)

lemma and_then_eq_Inr: "and_then m f = Inr y \<longleftrightarrow> (\<exists>x. m = Inr x \<and> f x = Inr y)"
  by (cases m) simp_all

lemma and_then_isl: "isl (and_then m f) \<longleftrightarrow> isl m \<or> (\<exists>x. m = Inr x \<and> isl (f x))"
  by (cases m) simp_all

lemma for_each_isl:
  assumes "x \<in> set xs" "\<And>s. isl (body x s)"
  shows "isl (for_each body xs s)"
  using assms(1)
proof (induction xs arbitrary: s)
  case Nil
  then show ?case by simp
next
  case (Cons y ys)
  show ?case
  proof (cases "body y s")
    case (Inl e)
    then show ?thesis by simp
  next
    case (Inr s')
    show ?thesis
    proof (cases "x = y")
      case True
      with assms(2) [of s] Inr show ?thesis by simp
    next
      case False
      with Cons Inr show ?thesis by simp
    qed
  qed
qed

lemma for_each_append:
  "for_each body (xs @ ys) s = and_then (for_each body xs s) (for_each body ys)"
proof (induction xs arbitrary: s)
  case Nil
  show ?case by simp
next
  case (Cons x xs)
  then show ?case by (cases "body x s") simp_all
qed

lemma for_each_stops:
  assumes "x \<in> set xs" "for_each body (takeWhile (\<lambda>y. y \<noteq> x) xs) s = Inr t" "body x t = Inl e"
  shows "for_each body xs s = Inl e"
proof -
  from assms(1) have "dropWhile (\<lambda>y. y \<noteq> x) xs \<noteq> []" by simp
  then obtain ys where "dropWhile (\<lambda>y. y \<noteq> x) xs = hd (dropWhile (\<lambda>y. y \<noteq> x) xs) # ys"
    by (cases "dropWhile (\<lambda>y. y \<noteq> x) xs") simp_all
  moreover have "hd (dropWhile (\<lambda>y. y \<noteq> x) xs) = x"
    using hd_dropWhile [OF \<open>dropWhile (\<lambda>y. y \<noteq> x) xs \<noteq> []\<close>] by simp
  ultimately have "xs = takeWhile (\<lambda>y. y \<noteq> x) xs @ x # ys"
    using takeWhile_dropWhile_id [of "\<lambda>y. y \<noteq> x" xs] by simp
  then have "for_each body xs s = for_each body (takeWhile (\<lambda>y. y \<noteq> x) xs @ x # ys) s"
    by simp
  also have "\<dots> = Inl e"
    unfolding for_each_append using assms(2,3) by simp
  finally show ?thesis .
qed

lemma for_each_snoc_invariant:
  assumes "for_each body xs s = Inr s'" "I pre s"
    and "\<And>x p t t'. x \<in> set xs \<Longrightarrow> I p t \<Longrightarrow> body x t = Inr t' \<Longrightarrow> I (p @ [x]) t'"
  shows "I (pre @ xs) s'"
  using assms
proof (induction xs arbitrary: s pre)
  case Nil
  then show ?case by simp
next
  case (Cons x xs)
  from Cons.prems(1) obtain t where t: "body x s = Inr t" and r: "for_each body xs t = Inr s'"
    by (auto simp: and_then_eq_Inr)
  have "I (pre @ [x]) t"
    using Cons.prems(3) [OF _ Cons.prems(2) t] by simp
  from Cons.IH [OF r this] Cons.prems(3) show ?case by simp
qed

lemma for_each_invariant:
  assumes "for_each body xs s = Inr s'" "I s"
    and "\<And>x t t'. x \<in> set xs \<Longrightarrow> I t \<Longrightarrow> body x t = Inr t' \<Longrightarrow> I t'"
  shows "I s'"
  using for_each_snoc_invariant [where I = "\<lambda>p. I" and pre = "[]", OF assms(1,2)] assms(3)
  by blast

subsection \<open>The configuration store\<close>

lemmas key_defs =
  OVIRT_API_INSECURE_def OVIRT_CA_def OVIRT_IP_REGEX_def OVIRT_NIC_NAME_def
  OVIRT_PASSWORD_def OVIRT_TAG_CONTROL_def OVIRT_TAG_WORKER_def OVIRT_URL_def
  OVIRT_USERNAME_def OVIRT_DC_def ANSIBLE_SSH_PK_def ANSIBLE_SSH_PORT_def
  ANSIBLE_SSH_USER_def ANSIBLE_SSH_PASS_def CONSUL_DC_def

lemma map_of_section:
  assumes "dc \<in> set (map fst secs)"
  shows "\<exists>sd. map_of secs dc = Some sd"
  using assms by (induction secs) auto

lemma map_of_section_dict:
  "map_of (map section_dict secs) dc = map_option (\<lambda>sd. snd (section_dict (dc, sd))) (map_of secs dc)"
  by (induction secs) (auto simp: section_dict_def fun_eq_iff split: option.splits)

lemma interpolate_some_Nil:
  "interpolate_some opt section m depth [] =
     (if depth > MAX_INTERPOLATION_DEPTH then Inl (InterpolationDepthError opt section)
      else Inr [])"
  by (subst interpolate_some.simps) simp

lemma interpolate_some_Cons:
  "interpolate_some opt section m depth (c # cs) =
     (if depth > MAX_INTERPOLATION_DEPTH then Inl (InterpolationDepthError opt section)
      else if c \<noteq> CHR ''%''
      then and_then (interpolate_some opt section m depth cs) (\<lambda>t. Inr (c # t))
      else
        (case cs of
           [] \<Rightarrow> Inl (InterpolationSyntaxError opt section)
         | c2 # cs2 \<Rightarrow>
             (if c2 = CHR ''%''
              then and_then (interpolate_some opt section m depth cs2) (\<lambda>t. Inr (CHR ''%'' # t))
              else if c2 = CHR ''(''
              then
                (case var_reference cs2 of
                   None \<Rightarrow> Inl (InterpolationSyntaxError opt section)
                 | Some (name, rest') \<Rightarrow>
                     (case m (optionxform name) of
                        None \<Rightarrow>
                          Inl (InterpolationMissingOptionError opt section (optionxform name))
                      | Some None \<Rightarrow> Inl TypeError
                      | Some (Some v) \<Rightarrow>
                          and_then
                            (if CHR ''%'' \<in> set v
                             then interpolate_some opt section m (depth + 1) v
                             else Inr v)
                            (\<lambda>a. and_then (interpolate_some opt section m depth rest')
                                   (\<lambda>t. Inr (a @ t)))))
              else Inl (InterpolationSyntaxError opt section))))"
  by (subst interpolate_some.simps) simp

lemmas interpolate_simps =
  interpolate_some_Nil interpolate_some_Cons var_reference_def optionxform_def lower_char_def

lemma interpolate_plain:
  assumes "depth \<le> MAX_INTERPOLATION_DEPTH" "CHR ''%'' \<notin> set s"
  shows "interpolate_some opt section m depth s = Inr s"
  using assms(2)
proof (induction s)
  case Nil
  with assms(1) show ?case by (simp add: interpolate_some.simps)
next
  case (Cons c cs)
  then have "interpolate_some opt section m depth cs = Inr cs" "c \<noteq> CHR ''%''" by auto
  with assms(1) show ?case
    by (subst interpolate_some.simps) simp
qed

lemma config_get_cases:
  "config_get cfg section opt =
     (if map_of (cp_sections cfg) section = None \<and> section \<noteq> DEFAULTSECT
      then Inl (NoSectionError section)
      else
        (case chainmap cfg section opt of
           None \<Rightarrow> Inl (NoOptionError opt section)
         | Some None \<Rightarrow> Inr None
         | Some (Some value) \<Rightarrow>
             and_then (interpolate cfg section opt value) (\<lambda>s. Inr (Some s))))"
  by (simp add: config_get_def)

lemma config_get_plain:
  assumes "chainmap cfg section opt = Some (Some v)" "CHR ''%'' \<notin> set v"
    "map_of (cp_sections cfg) section \<noteq> None \<or> section = DEFAULTSECT"
  shows "config_get cfg section opt = Inr (Some v)"
  using assms
  by (auto simp: config_get_def interpolate_def interpolate_plain MAX_INTERPOLATION_DEPTH_def)

lemma init_defaults_ovirt_dc: "init_defaults OVIRT_DC = None"
  by (simp add: init_defaults_def key_defs)

lemma init_defaults_insecure: "init_defaults OVIRT_API_INSECURE = None"
  by (simp add: init_defaults_def key_defs)

lemma chainmap_init:
  assumes "map_of (file_sections f) dc = Some sd" "k \<noteq> ''__name__''" "init_defaults k = None"
  shows "chainmap (OVirtInventory_init f) dc k =
           map_option Some (case sd k of Some v \<Rightarrow> Some v | None \<Rightarrow> file_defaults f k)"
  using assms
  by (simp add: chainmap_def OVirtInventory_init_def map_of_section_dict section_dict_def
      split: option.splits)

lemma has_option_init:
  assumes "map_of (file_sections f) dc = Some sd" "k \<noteq> ''__name__''" "init_defaults k = None"
    "dc \<noteq> []" "dc \<noteq> DEFAULTSECT"
  shows "has_option (OVirtInventory_init f) dc k \<longleftrightarrow>
           (case sd k of Some v \<Rightarrow> Some v | None \<Rightarrow> file_defaults f k) \<noteq> None"
  using assms
  by (simp add: has_option_def OVirtInventory_init_def map_of_section_dict section_dict_def
      split: option.splits)

lemma get_string:
  assumes "config_get (OVirtInventory_init f) dc k = Inr v" "init_defaults k = None"
  shows "v \<noteq> None"
proof -
  have d: "cp_defaults (OVirtInventory_init f) k = map_option Some (file_defaults f k)"
    using assms(2) by (simp add: OVirtInventory_init_def split: option.splits)
  have "chainmap (OVirtInventory_init f) dc k \<noteq> Some None"
    unfolding chainmap_def d
    by (cases "file_defaults f k") (simp_all split: option.splits)
  with assms(1) show ?thesis
    by (auto simp: config_get_cases and_then_eq_Inr split: if_splits option.splits)
qed

subsection \<open>Evaluating the scenarios\<close>

lemma default_ip_regex_plain: "CHR ''%'' \<notin> set default_ip_regex"
  by (simp add: default_ip_regex_def backslash_def)

lemmas cfg_simps = default_ip_regex_plain
  ini_file_def OVirtInventory_init_def section_dict_def credentials_def init_defaults_def key_defs
  config_get_def chainmap_def interpolate_def interpolate_plain MAX_INTERPOLATION_DEPTH_def
  has_option_def DEFAULTSECT_def datacenters_def

lemma parse_default:
  "rx_parse default_ip_regex =
     Some (Seq Bol (Seq (Grp (Plus Digit)) (Seq AnyChar (Seq (Grp (Plus Digit)) (Seq AnyChar
       (Seq (Grp (Plus Digit)) (Seq AnyChar (Seq (Grp (Plus Digit)) Eol))))))))"
  by (simp add: rx_parse_def default_ip_regex_def backslash_def)

lemmas rx_simps = rx_match_def eat_def is_digit_def fuel_def newline_def

lemma compile_default:
  "re_compile default_ip_regex =
     Inr (rx_match (Seq Bol (Seq (Grp (Plus Digit)) (Seq AnyChar (Seq (Grp (Plus Digit)) (Seq AnyChar
       (Seq (Grp (Plus Digit)) (Seq AnyChar (Seq (Grp (Plus Digit)) Eol)))))))))"
  by (simp add: re_compile_def parse_default)

lemma dc1_get:
  "config_get dc1_cfg ''dc1'' OVIRT_NIC_NAME = Inr None"
  "config_get dc1_cfg ''dc1'' OVIRT_IP_REGEX = Inr (Some default_ip_regex)"
  by (simp_all add: dc1_cfg_def cfg_simps)

lemma ip_dc1:
  "ip (python_env a ord) dc1_cfg ''dc1'' (one_ip_vm ''up'' ''nic1'' ''10.0.0.5'') = Inr (Some ''10.0.0.5'')"
  by (simp add: ip_def dc1_get python_env_def compile_default one_ip_vm_def rx_simps)

lemma hosts_dc1_control:
  "hosts (python_env control_vm_api ord) dc1_cfg ''dc1'' (Some ''mi-control'') = Inr [''10.0.0.5'']"
proof -
  have q: "hosts_query dc1_cfg ''dc1'' (Some ''mi-control'') = Inr ''datacenter=dc1 and tag=mi-control''"
    by (simp add: hosts_query_def dc1_cfg_def cfg_simps format_s_def)
  have a: "\<exists>kw. api dc1_cfg ''dc1'' = Inr kw"
    by (simp add: api_def dc1_cfg_def cfg_simps)
  then obtain kw where kw: "api dc1_cfg ''dc1'' = Inr kw" ..
  have l: "api_vms_list (python_env control_vm_api ord) kw ''datacenter=dc1 and tag=mi-control''
        = Inr [one_ip_vm ''up'' ''nic1'' ''10.0.0.5'']"
    by (simp add: python_env_def control_vm_api_def canned_api_def)
  have s: "state (one_ip_vm ''up'' ''nic1'' ''10.0.0.5'') = ''up''"
    by (simp add: one_ip_vm_def)
  show ?thesis
    by (simp add: hosts_def q kw l hosts_vm_def s ip_dc1)
qed

lemma hosts_dc1_worker:
  "hosts (python_env control_vm_api ord) dc1_cfg ''dc1'' (Some ''mi-worker'') = Inr []"
proof -
  have q: "hosts_query dc1_cfg ''dc1'' (Some ''mi-worker'') = Inr ''datacenter=dc1 and tag=mi-worker''"
    by (simp add: hosts_query_def dc1_cfg_def cfg_simps format_s_def)
  have a: "\<exists>kw. api dc1_cfg ''dc1'' = Inr kw"
    by (simp add: api_def dc1_cfg_def cfg_simps)
  then obtain kw where kw: "api dc1_cfg ''dc1'' = Inr kw" ..
  have l: "api_vms_list (python_env control_vm_api ord) kw ''datacenter=dc1 and tag=mi-worker''
        = Inr []"
    by (simp add: python_env_def control_vm_api_def canned_api_def)
  show ?thesis
    by (simp add: hosts_def q kw l)
qed

lemma dc1_parts:
  "datacenters dc1_cfg = [''dc1'']"
  "role_tag dc1_cfg ''dc1'' ''control'' = Inr (Some ''mi-control'')"
  "role_tag dc1_cfg ''dc1'' ''worker'' = Inr (Some ''mi-worker'')"
  "role_hostvars dc1_cfg ''dc1'' role = Inr [''role'' \<mapsto> role, ''dc'' \<mapsto> ''dc1'', ''consul_dc'' \<mapsto> ''dc1'']"
  "for_each (dc_var en dc1_cfg ''dc1'') DC_OPT_VARS Map.empty = Inr Map.empty"
  by (simp_all add: dc1_cfg_def cfg_simps role_tag_def ROLES_def role_hostvars_def py_str_def
      DC_OPT_VARS_def dc_var_def)

lemmas doc_simps =
  inventory_def inventory_dc_def inventory_role_def set_var_def extend_hosts_def
  ensure_group_def set_hostvars_def initial_data_def format_s_def ROLES_keys_def
  hosts_of_def vars_of_def hostvars_of_def

lemmas eval_simps =
  doc_simps cfg_simps python_env_def canned_api_def failing_api_def one_ip_vm_def
  hosts_def hosts_query_def hosts_vm_def api_def ip_def nics_get_def py_bool_def py_str_def
  role_tag_def role_hostvars_def ROLES_def DC_OPT_VARS_def dc_var_def convert_def
  compile_default rx_simps

subsection \<open>The scenario of the specification\<close>

text \<open>
  Claim C1. The configuration has the single section \<open>dc1\<close>, with the default tags, the
  default pattern and no interface filter; the API knows one VM, tagged \<open>mi-control\<close>,
  that is up and has one interface with one reported device with the single address
  \<open>10.0.0.5\<close>. Then \<open>inventory\<close> returns a document with
  \<open>data["dc1"]["hosts"] == ["10.0.0.5"]\<close>, \<open>data["role=control"]["hosts"] == ["10.0.0.5"]\<close>
  and \<open>data["_meta"]["hostvars"]["10.0.0.5"] == {"role": "control", "dc": "dc1",
  "consul_dc": "dc1"}\<close>, in whichever order the roles are enumerated.
\<close>

theorem scenario_one_control_vm:
  "hosts_of ''dc1'' (inventory (python_env control_vm_api ord) dc1_cfg) =
     Inr (Some (Some [''10.0.0.5''])) \<and>
   hosts_of ''role=control'' (inventory (python_env control_vm_api ord) dc1_cfg) =
     Inr (Some (Some [''10.0.0.5''])) \<and>
   hostvars_of ''10.0.0.5'' (inventory (python_env control_vm_api ord) dc1_cfg) =
     Inr (Some (Some (Some [''role'' \<mapsto> ''control'', ''dc'' \<mapsto> ''dc1'', ''consul_dc'' \<mapsto> ''dc1''])))"
proof -
  have o: "roles_order (python_env control_vm_api x) = x" for x
    by (simp add: python_env_def)
  show ?thesis
    by (cases ord)
      (simp_all add: doc_simps dc1_parts o hosts_dc1_control hosts_dc1_worker)
qed

subsection \<open>An interface filter that names no interface\<close>

text \<open>
  Claim C2 says that IP resolution yields no address and raises no error when the VM has
  no interface named \<open>nic_<filter>\<close>, and that the VM is left out silently. The module does
  otherwise: the lookup returns \<open>None\<close>, the list \<open>[None]\<close> is iterated, and
  \<open>get_reported_devices\<close> is called on \<open>None\<close>. With \<open>ovirt_nic_name = eth0\<close> and a running
  VM whose only interface is \<open>nic_eth1\<close>, \<open>ip\<close> raises \<open>AttributeError\<close>, and so does
  \<open>inventory\<close>: no document is returned.
\<close>

theorem absent_nic_raises:
  "ip (python_env eth1_api ord) eth0_cfg ''dc1'' (one_ip_vm ''up'' ''nic_eth1'' ''10.0.0.5'') =
     Inl AttributeError \<and>
   inventory (python_env eth1_api ord) eth0_cfg = Inl AttributeError"
  by (cases ord) (simp_all add: eval_simps eth0_cfg_def eth1_api_def)

subsection \<open>The variables of a host\<close>

lemma extend_hosts_Inr:
  "extend_hosts key hs data = Inr data' \<longleftrightarrow>
     (\<exists>e old. data key = Some e \<and> g_hosts e = Some old \<and>
        data' = data(key \<mapsto> e\<lparr>g_hosts := Some (old @ hs)\<rparr>))"
  by (auto simp: extend_hosts_def split: option.splits)

lemma set_hostvars_Inr:
  "set_hostvars v h data = Inr data' \<longleftrightarrow>
     (\<exists>e hv. data ''_meta'' = Some e \<and> g_hostvars e = Some hv \<and>
        data' = data(''_meta'' \<mapsto> e\<lparr>g_hostvars := Some (hv(h \<mapsto> v))\<rparr>))"
  by (auto simp: set_hostvars_def split: option.splits)

lemma set_var_Inr:
  "set_var key name x data = Inr data' \<longleftrightarrow>
     (\<exists>e vs. data key = Some e \<and> g_vars e = Some vs \<and>
        data' = data(key \<mapsto> e\<lparr>g_vars := Some (vs(name \<mapsto> x))\<rparr>))"
  by (auto simp: set_var_def split: option.splits)

lemma lastw_Nil: "lastw [] = Map.empty"
  by (intro ext) (simp add: lastw_def)

lemma lastw_snoc:
  "lastw (ws @ [(hs, Some v)]) = (\<lambda>h. if h \<in> set hs then Some v else lastw ws h)"
  by (intro ext) (simp add: lastw_def)

lemma dom_lastw_snoc: "dom (lastw (ws @ [(hs, Some v)])) = dom (lastw ws) \<union> set hs"
  unfolding lastw_snoc by (auto simp: dom_def)

lemma last_writer_lastw: "last_writer en cfg = lastw (map (combo_write en cfg) (combos en cfg))"
  by (intro ext)
    (simp add: last_writer_def lastw_def filter_map rev_map combo_write_def comp_def
      split: list.splits)

lemma meta_hv_extend_hosts:
  assumes "extend_hosts key hs d = Inr d'"
  shows "meta_hv d' = meta_hv d"
proof -
  from assms obtain e old where e: "d key = Some e"
    and d: "d' = d(key \<mapsto> e\<lparr>g_hosts := Some (old @ hs)\<rparr>)"
    unfolding extend_hosts_Inr by blast
  show ?thesis unfolding d by (simp add: meta_hv_def e)
qed

lemma meta_hv_set_var:
  assumes "set_var key name x d = Inr d'"
  shows "meta_hv d' = meta_hv d"
proof -
  from assms obtain e vs where e: "d key = Some e"
    and d: "d' = d(key \<mapsto> e\<lparr>g_vars := Some (vs(name \<mapsto> x))\<rparr>)"
    unfolding set_var_Inr by blast
  show ?thesis unfolding d by (simp add: meta_hv_def e)
qed

lemma meta_hv_ensure_group:
  assumes "meta_hv d \<noteq> None"
  shows "meta_hv (ensure_group g d) = meta_hv d"
  using assms by (auto simp: meta_hv_def ensure_group_def split: option.splits)

lemma hosts_within_extend_hosts:
  assumes "extend_hosts key hs d = Inr d'" "hosts_within d A"
  shows "hosts_within d' (A \<union> set hs)"
proof -
  from assms obtain e old where e: "d key = Some e" "g_hosts e = Some old"
    and d: "d' = d(key \<mapsto> e\<lparr>g_hosts := Some (old @ hs)\<rparr>)"
    unfolding extend_hosts_Inr by blast
  from assms(2) e have "set old \<subseteq> A" unfolding hosts_within_def by blast
  with assms(2) show ?thesis
    unfolding d hosts_within_def by (auto split: if_splits)
qed

lemma hosts_within_ensure_group:
  assumes "hosts_within d A"
  shows "hosts_within (ensure_group g d) A"
  using assms unfolding hosts_within_def ensure_group_def by (auto split: if_splits)

lemma hosts_within_set_var:
  assumes "set_var key name x d = Inr d'" "hosts_within d A"
  shows "hosts_within d' A"
proof -
  from assms obtain e vs where e: "d key = Some e"
    and d: "d' = d(key \<mapsto> e\<lparr>g_vars := Some (vs(name \<mapsto> x))\<rparr>)"
    unfolding set_var_Inr by blast
  from assms(2) e show ?thesis
    unfolding d hosts_within_def by (auto split: if_splits)
qed

lemma for_each_set_hostvars:
  assumes "for_each (set_hostvars v) hs d = Inr d'" "d ''_meta'' = Some m" "g_hostvars m = Some hv"
  shows "d' = d(''_meta'' \<mapsto> m\<lparr>g_hostvars := Some (\<lambda>h. if h \<in> set hs then Some v else hv h)\<rparr>)"
  using assms
proof (induction hs arbitrary: d m hv)
  case Nil
  then have "m\<lparr>g_hostvars := Some hv\<rparr> = m" by simp
  with Nil show ?case by (simp add: map_upd_triv)
next
  case (Cons h hs)
  let ?m1 = "m\<lparr>g_hostvars := Some (hv(h \<mapsto> v))\<rparr>"
  let ?d1 = "d(''_meta'' \<mapsto> ?m1)"
  have s: "set_hostvars v h d = Inr ?d1"
    using Cons.prems(2,3) by (simp add: set_hostvars_def)
  with Cons.prems(1) have r: "for_each (set_hostvars v) hs ?d1 = Inr d'" by simp
  have f: "(\<lambda>x. if x \<in> set hs then Some v else (hv(h \<mapsto> v)) x) =
           (\<lambda>x. if x \<in> set (h # hs) then Some v else hv x)"
    by (intro ext) simp
  have a: "?d1 ''_meta'' = Some ?m1" by simp
  have b: "g_hostvars ?m1 = Some (hv(h \<mapsto> v))" by simp
  show ?case
    unfolding Cons.IH [OF r a b] f by simp
qed

lemma written_inventory_role:
  assumes "inventory_role en cfg dc role d = Inr d'" "written ws d"
  shows "written (ws @ [combo_write en cfg (dc, role)]) d'"
proof -
  let ?g = "''role='' @ role"
  from assms(1) obtain tag v hs d1 d2 where
    tag: "role_tag cfg dc role = Inr tag"
    and v: "role_hostvars cfg dc role = Inr v"
    and hs: "hosts en cfg dc tag = Inr hs"
    and d1: "extend_hosts ?g hs (ensure_group ?g d) = Inr d1"
    and d2: "extend_hosts dc hs d1 = Inr d2"
    and d': "for_each (set_hostvars v) hs d2 = Inr d'"
    by (auto simp: inventory_role_def and_then_eq_Inr Let_def format_s_def)
  have w: "combo_write en cfg (dc, role) = (hs, Some v)"
    by (simp add: combo_write_def combo_hosts_def combo_vars_def tag v hs)
  from assms(2) have m: "meta_hv d = Some (lastw ws)" and h: "hosts_within d (dom (lastw ws))"
    by (simp_all add: written_def)
  have m2: "meta_hv d2 = Some (lastw ws)"
    using m meta_hv_extend_hosts [OF d2] meta_hv_extend_hosts [OF d1]
      meta_hv_ensure_group [of d ?g] by simp
  then obtain e where e: "d2 ''_meta'' = Some e" "g_hostvars e = Some (lastw ws)"
    by (auto simp: meta_hv_def split: option.splits)
  have h2: "hosts_within d2 (dom (lastw ws) \<union> set hs)"
    using hosts_within_extend_hosts [OF d2 hosts_within_extend_hosts
        [OF d1 hosts_within_ensure_group [OF h]]]
    by simp
  note r = for_each_set_hostvars [OF d' e]
  have "meta_hv d' = Some (lastw (ws @ [(hs, Some v)]))"
    unfolding r lastw_snoc by (simp add: meta_hv_def)
  moreover have "hosts_within d' (dom (lastw (ws @ [(hs, Some v)])))"
    using h2 e(1) unfolding r dom_lastw_snoc hosts_within_def
    by (auto split: if_splits)
  ultimately show ?thesis by (simp add: written_def w)
qed

lemma written_roles:
  assumes "for_each (inventory_role en cfg dc) roles d = Inr d'" "written ws d"
  shows "written (ws @ map (\<lambda>role. combo_write en cfg (dc, role)) roles) d'"
  using assms
proof (induction roles arbitrary: d ws)
  case Nil
  then show ?case by simp
next
  case (Cons r rs)
  from Cons.prems(1) obtain t where t: "inventory_role en cfg dc r d = Inr t"
    and l: "for_each (inventory_role en cfg dc) rs t = Inr d'"
    by (auto simp: and_then_eq_Inr)
  from Cons.IH [OF l written_inventory_role [OF t Cons.prems(2)]] show ?case by simp
qed

lemma written_inventory_dc:
  assumes "inventory_dc en cfg dc d = Inr d'" "written ws d" "dc \<noteq> ''_meta''"
  shows "written (ws @ map (\<lambda>role. combo_write en cfg (dc, role)) (ROLES_keys (roles_order en))) d'"
proof -
  from assms(1) obtain vs d1 where
    d1: "set_var dc ''dc'' (PyStr dc)
           (d(dc \<mapsto> \<lparr>g_hosts = Some [], g_vars = Some vs, g_hostvars = None\<rparr>)) = Inr d1"
    and l: "for_each (inventory_role en cfg dc) (ROLES_keys (roles_order en)) d1 = Inr d'"
    by (auto simp: inventory_dc_def and_then_eq_Inr)
  let ?d0 = "d(dc \<mapsto> \<lparr>g_hosts = Some [], g_vars = Some vs, g_hostvars = None\<rparr>)"
  from assms(2) have m: "meta_hv d = Some (lastw ws)" and h: "hosts_within d (dom (lastw ws))"
    by (simp_all add: written_def)
  have "meta_hv ?d0 = Some (lastw ws)"
    using m assms(3) by (simp add: meta_hv_def)
  moreover have "hosts_within ?d0 (dom (lastw ws))"
    using h unfolding hosts_within_def by (auto split: if_splits)
  ultimately have "written ws d1"
    using meta_hv_set_var [OF d1] hosts_within_set_var [OF d1] by (simp add: written_def)
  with l show ?thesis by (rule written_roles)
qed

lemma written_datacenters:
  assumes "for_each (inventory_dc en cfg) dcs d = Inr d'" "written ws d" "''_meta'' \<notin> set dcs"
  shows "written (ws @ concat (map (\<lambda>dc. map (\<lambda>role. combo_write en cfg (dc, role))
           (ROLES_keys (roles_order en))) dcs)) d'"
  using assms
proof (induction dcs arbitrary: d ws)
  case Nil
  then show ?case by simp
next
  case (Cons dc dcs)
  from Cons.prems(1) obtain t where t: "inventory_dc en cfg dc d = Inr t"
    and l: "for_each (inventory_dc en cfg) dcs t = Inr d'"
    by (auto simp: and_then_eq_Inr)
  from Cons.prems(3) have n: "dc \<noteq> ''_meta''" "''_meta'' \<notin> set dcs" by auto
  from Cons.IH [OF l written_inventory_dc [OF t Cons.prems(2) n(1)] n(2)] show ?case by simp
qed

lemma written_inventory:
  assumes "inventory en cfg = Inr data" "''_meta'' \<notin> set (datacenters cfg)"
  shows "written (map (combo_write en cfg) (combos en cfg)) data"
proof -
  have "written [] initial_data"
    by (simp add: written_def lastw_Nil meta_hv_def initial_data_def hosts_within_def)
  from written_datacenters [OF assms(1) [unfolded inventory_def] this assms(2)]
  show ?thesis
    by (simp add: combos_def map_concat comp_def)
qed

text \<open>
  Claim C3 as stated, for every document \<open>inventory\<close> returns, fails when a section of the
  file is named \<open>_meta\<close>: the group of that datacenter replaces the dictionary that held
  \<open>hostvars\<close>. With the sections \<open>dc1\<close> and \<open>_meta\<close> and the one control VM of \<open>dc1\<close>, the
  returned document lists \<open>10.0.0.5\<close> under \<open>dc1\<close> while \<open>data["_meta"]\<close> has no key
  \<open>hostvars\<close> at all.
\<close>

theorem meta_section_drops_hostvars:
  "hosts_of ''dc1'' (inventory (python_env control_vm_api ControlWorker) meta_cfg) =
     Inr (Some (Some [''10.0.0.5''])) \<and>
   hostvars_of ''10.0.0.5'' (inventory (python_env control_vm_api ControlWorker) meta_cfg) =
     Inr (Some None)"
  by (simp add: eval_simps meta_cfg_def control_vm_api_def)

text \<open>
  Claim C3, amended: when no section of the file is named \<open>_meta\<close>, in every document
  \<open>inventory\<close> returns the entry of a host in \<open>_meta.hostvars\<close> is the mapping of variables
  of the last combination of datacenter and role, in processing order, that yielded the
  host (the whole mapping of that combination, not a merge), there is no entry for a host
  that no combination yielded, and every host in the host list of any group has an
  entry.
\<close>

theorem hostvars_last_writer:
  assumes "inventory en cfg = Inr data" and "''_meta'' \<notin> set (datacenters cfg)"
  shows "hostvars_of h (Inr data) = Inr (Some (Some (last_writer en cfg h))) \<and>
         (\<forall>k hs. hosts_of k (Inr data) = Inr (Some (Some hs)) \<and> h \<in> set hs \<longrightarrow>
            last_writer en cfg h \<noteq> None)"
proof -
  from written_inventory [OF assms]
  have m: "meta_hv data = Some (last_writer en cfg)"
    and w: "hosts_within data (dom (last_writer en cfg))"
    unfolding written_def last_writer_lastw by simp_all
  from m have "hostvars_of h (Inr data) = Inr (Some (Some (last_writer en cfg h)))"
    by (auto simp: hostvars_of_def meta_hv_def split: option.splits)
  moreover from w have "\<forall>k hs. hosts_of k (Inr data) = Inr (Some (Some hs)) \<and> h \<in> set hs \<longrightarrow>
            last_writer en cfg h \<noteq> None"
    unfolding hosts_within_def hosts_of_def by (fastforce simp: dom_def)
  ultimately show ?thesis by simp
qed

theorem hostvars_last_writer_witness:
  "''_meta'' \<notin> set (datacenters two_dc_cfg) \<and>
   hostvars_of ''10.0.0.5'' (inventory (python_env shared_ip_api ControlWorker) two_dc_cfg) =
     Inr (Some (Some (Some [''role'' \<mapsto> ''worker'', ''dc'' \<mapsto> ''dc2'', ''consul_dc'' \<mapsto> ''dc2''])))"
proof -
  have "\<exists>data. inventory (python_env shared_ip_api ControlWorker) two_dc_cfg = Inr data"
    by (simp add: eval_simps two_dc_cfg_def shared_ip_api_def)
  then obtain data where d: "inventory (python_env shared_ip_api ControlWorker) two_dc_cfg = Inr data"
    by blast
  have m: "''_meta'' \<notin> set (datacenters two_dc_cfg)"
    by (simp add: two_dc_cfg_def cfg_simps)
  have l: "last_writer (python_env shared_ip_api ControlWorker) two_dc_cfg ''10.0.0.5'' =
             Some [''role'' \<mapsto> ''worker'', ''dc'' \<mapsto> ''dc2'', ''consul_dc'' \<mapsto> ''dc2'']"
    by (simp add: last_writer_def combos_def combo_hosts_def combo_vars_def eval_simps
        two_dc_cfg_def shared_ip_api_def)
  from hostvars_last_writer [OF d m, of "''10.0.0.5''"] m l d show ?thesis
    by simp
qed

subsection \<open>The order of IP resolution\<close>

lemma fold_ips: "fold (\<lambda>d a. a @ ips d) ds acc = acc @ concat (map ips ds)"
  by (induction ds arbitrary: acc) simp_all

lemma collect_ips_Some: "collect_ips (map Some ns) acc = Inr (acc @ addresses ns)"
  by (induction ns arbitrary: acc) (simp_all add: addresses_def fold_ips)

lemma first_match_find: "first_match pattern as = find pattern as"
  by (induction as) simp_all

lemma candidates_collect:
  assumes "candidate_nics v nic_name = Some ns"
  shows "collect_ips
           (case nic_name of
              Some name \<Rightarrow> [nics_get v (''nic_'' @ format_s (Some name))]
            | None \<Rightarrow> map Some (nics v)) [] = Inr (addresses ns)"
proof (cases nic_name)
  case None
  with assms show ?thesis
    by (simp add: candidate_nics_def collect_ips_Some)
next
  case (Some name)
  with assms obtain n where "nics_get v (''nic_'' @ name) = Some n" "ns = [n]"
    by (auto simp: candidate_nics_def nics_get_def)
  with Some show ?thesis
    using collect_ips_Some [of "[n]" "[]"] by (simp add: format_s_def)
qed

text \<open>
  Where the pattern compiles and the candidate interfaces exist (all interfaces of the VM
  without a filter, the single interface \<open>nic_<filter>\<close> with one), \<open>ip\<close> returns the first
  address, in the order of the interfaces, of the reported devices of each and of the
  addresses of each device, that the pattern matches, and \<open>None\<close> when it matches none.
  With the pattern \<open>10\<close> the second address of the first interface of \<open>two_nic_vm\<close> is
  returned; with the filter \<open>eth1\<close>, the address of its second interface.
\<close>

lemma ip_first_match:
  assumes "config_get cfg dc OVIRT_NIC_NAME = Inr nic_name"
    and "config_get cfg dc OVIRT_IP_REGEX = Inr ip_regex"
    and "regex_compile en (case ip_regex of None \<Rightarrow> [] | Some r \<Rightarrow> r) = Inr pattern"
    and "candidate_nics v nic_name = Some ns"
  shows "ip en cfg dc v = Inr (find pattern (addresses ns))"
  using assms(1-3) candidates_collect [OF assms(4)]
  by (simp add: ip_def first_match_find)

lemma ip_first_match_examples:
  "ip (python_env control_vm_api ord) prefix_cfg ''dc1'' two_nic_vm = Inr (Some ''10.0.0.5'') \<and>
   ip (python_env control_vm_api ord) (filter_cfg ''eth1'') ''dc1'' two_nic_vm =
     Inr (Some ''10.1.1.1'')"
proof -
  have 1: "config_get prefix_cfg ''dc1'' OVIRT_NIC_NAME = Inr None"
    and 2: "config_get prefix_cfg ''dc1'' OVIRT_IP_REGEX = Inr (Some ''10'')"
    by (simp_all add: prefix_cfg_def cfg_simps)
  have 3: "regex_compile (python_env control_vm_api ord)
             (case Some ''10'' of None \<Rightarrow> [] | Some r \<Rightarrow> r) =
           Inr (rx_match (Seq (Lit CHR ''1'') (Lit CHR ''0'')))"
    by (simp add: python_env_def re_compile_def rx_parse_def backslash_def)
  have 4: "candidate_nics two_nic_vm None = Some (nics two_nic_vm)"
    by (simp add: candidate_nics_def)
  have 5: "config_get (filter_cfg ''eth1'') ''dc1'' OVIRT_NIC_NAME = Inr (Some ''eth1'')"
    and 6: "config_get (filter_cfg ''eth1'') ''dc1'' OVIRT_IP_REGEX = Inr (Some default_ip_regex)"
    by (simp_all add: filter_cfg_def cfg_simps)
  have 7: "regex_compile (python_env control_vm_api ord)
             (case Some default_ip_regex of None \<Rightarrow> [] | Some r \<Rightarrow> r) =
           Inr (rx_match (Seq Bol (Seq (Grp (Plus Digit)) (Seq AnyChar (Seq (Grp (Plus Digit))
             (Seq AnyChar (Seq (Grp (Plus Digit)) (Seq AnyChar (Seq (Grp (Plus Digit)) Eol)))))))))"
    by (simp add: python_env_def compile_default)
  have 8: "candidate_nics two_nic_vm (Some ''eth1'') =
             Some [\<lparr>if_name = ''nic_eth1'', reported_devices = [\<lparr>ips = [''10.1.1.1'']\<rparr>]\<rparr>]"
    by (simp add: candidate_nics_def two_nic_vm_def)
  show ?thesis
    using ip_first_match [OF 1 2 3 4] ip_first_match [OF 5 6 7 8]
    by (simp add: addresses_def two_nic_vm_def rx_simps)
qed

text \<open>
  Claim C4 says that for every VM record, interface filter and pattern, IP resolution
  returns the first address, in the listed order of the candidate interfaces, of their
  reported devices and of the addresses of each device, that the pattern matches at its
  start, and none when no collected address matches. The module does otherwise when the
  filter names no interface of the VM: no address is collected, and \<open>ip\<close> does not return
  none but raises \<open>AttributeError\<close>, by the defect of claim C2. With \<open>ovirt_nic_name =
  eth2\<close> and a VM whose interfaces are \<open>nic_eth0\<close> and \<open>nic_eth1\<close>, no candidate interface
  exists and \<open>ip\<close> raises.
\<close>

theorem filtered_resolution_raises:
  "candidate_nics two_nic_vm (Some ''eth2'') = None \<and>
   ip (python_env control_vm_api ord) (filter_cfg ''eth2'') ''dc1'' two_nic_vm = Inl AttributeError"
  by (simp add: candidate_nics_def two_nic_vm_def eval_simps filter_cfg_def format_s_def)

subsection \<open>A failure of the API\<close>

lemma inventory_dc_group:
  "inventory_dc en cfg dc data =
     and_then (dc_group en cfg dc data)
       (for_each (inventory_role en cfg dc) (ROLES_keys (roles_order en)))"
  by (cases "for_each (dc_var en cfg dc) DC_OPT_VARS Map.empty")
    (simp_all add: inventory_dc_def dc_group_def)

lemma hosts_api_failure:
  assumes "hosts_query cfg dc tag = Inr q" "api cfg dc = Inr kwargs"
    "api_vms_list en kwargs q = Inl e"
  shows "hosts en cfg dc tag = Inl e"
  using assms by (simp add: hosts_def)

lemma inventory_role_isl:
  assumes "role_tag cfg dc role = Inr tag" "hosts en cfg dc tag = Inl e"
  shows "isl (inventory_role en cfg dc role data)"
  using assms by (cases "role_hostvars cfg dc role") (simp_all add: inventory_role_def Let_def)

lemma inventory_dc_isl:
  assumes "role \<in> set (ROLES_keys (roles_order en))"
    "role_tag cfg dc role = Inr tag" "hosts en cfg dc tag = Inl e"
  shows "isl (inventory_dc en cfg dc data)"
  unfolding inventory_dc_def and_then_isl
  using for_each_isl [OF assms(1), of "inventory_role en cfg dc"]
    inventory_role_isl [OF assms(2,3)]
  by (metis isl_def sum.collapse(2))

lemma api_failure_no_document:
  assumes "dc \<in> set (datacenters cfg)"
    and "role \<in> set (ROLES_keys (roles_order en))"
    and "role_tag cfg dc role = Inr tag"
    and "hosts_query cfg dc tag = Inr q"
    and "api cfg dc = Inr kwargs"
    and "api_vms_list en kwargs q = Inl e"
  shows "isl (inventory en cfg)"
proof -
  have h: "hosts en cfg dc tag = Inl e"
    by (rule hosts_api_failure [OF assms(4-6)])
  have "isl (inventory_dc en cfg dc data)" for data
    by (rule inventory_dc_isl [OF assms(2,3) h])
  then show ?thesis
    unfolding inventory_def by (rule for_each_isl [OF assms(1)])
qed

lemma inventory_role_api_failure:
  assumes "role_tag cfg dc role = Inr tag" "role_hostvars cfg dc role = Inr hostvars"
    "hosts en cfg dc tag = Inl e"
  shows "inventory_role en cfg dc role data = Inl e"
  using assms by (simp add: inventory_role_def Let_def)

text \<open>
  Claim C5. The API raises \<open>e\<close> while \<open>inventory\<close> processes a role of a datacenter: the run
  gets to that step (\<open>before\<close> returns the data built so far), the tag, the variables of
  the hosts, the query and the arguments of \<open>API\<close> are computed, and the call raises \<open>e\<close>.
  Then \<open>hosts\<close> raises \<open>e\<close> and \<open>inventory\<close> raises \<open>e\<close>: that error, and no document. In the
  witness the control role of \<open>dc1\<close> is processed without error before the worker role
  fails. (By \<open>api_failure_no_document\<close>, \<open>inventory\<close> returns no document either when an
  earlier step raises first.)
\<close>

theorem api_failure_aborts:
  assumes "dc \<in> set (datacenters cfg)"
    and "role \<in> set (ROLES_keys (roles_order en))"
    and "before en cfg dc role = Inr data"
    and "role_tag cfg dc role = Inr tag"
    and "role_hostvars cfg dc role = Inr hostvars"
    and "hosts_query cfg dc tag = Inr q"
    and "api cfg dc = Inr kwargs"
    and "api_vms_list en kwargs q = Inl e"
  shows "hosts en cfg dc tag = Inl e \<and> inventory en cfg = Inl e"
proof -
  have h: "hosts en cfg dc tag = Inl e"
    by (rule hosts_api_failure [OF assms(6-8)])
  from assms(3) obtain data0 data1 where
    d0: "for_each (inventory_dc en cfg) (takeWhile (\<lambda>x. x \<noteq> dc) (datacenters cfg)) initial_data
           = Inr data0"
    and d1: "dc_group en cfg dc data0 = Inr data1"
    and d: "for_each (inventory_role en cfg dc)
              (takeWhile (\<lambda>r. r \<noteq> role) (ROLES_keys (roles_order en))) data1 = Inr data"
    by (auto simp: before_def and_then_eq_Inr)
  have "for_each (inventory_role en cfg dc) (ROLES_keys (roles_order en)) data1 = Inl e"
    by (rule for_each_stops [OF assms(2) d inventory_role_api_failure [OF assms(4,5) h]])
  then have "inventory_dc en cfg dc data0 = Inl e"
    by (simp add: inventory_dc_group d1)
  then have "inventory en cfg = Inl e"
    unfolding inventory_def by (rule for_each_stops [OF assms(1) d0])
  with h show ?thesis by simp
qed

theorem api_failure_aborts_witness:
  "api_vms_list (python_env worker_down_api ControlWorker)
     \<lparr>kw_password = Some ''secret'', kw_url = Some ''https://ovirt.example.com/api'',
      kw_username = Some ''admin@internal'', kw_ca_file = None, kw_insecure = None\<rparr>
     ''datacenter=dc1 and tag=mi-worker'' = Inl ConnectionError \<and>
   hosts (python_env worker_down_api ControlWorker) dc1_cfg ''dc1'' (Some ''mi-worker'') =
     Inl ConnectionError \<and>
   inventory (python_env worker_down_api ControlWorker) dc1_cfg = Inl ConnectionError"
proof -
  have 1: "''dc1'' \<in> set (datacenters dc1_cfg)"
    by (simp add: dc1_parts)
  have 2: "''worker'' \<in> set (ROLES_keys (roles_order (python_env worker_down_api ControlWorker)))"
    by (simp add: python_env_def ROLES_keys_def)
  have "\<exists>data. before (python_env worker_down_api ControlWorker) dc1_cfg ''dc1'' ''worker'' = Inr data"
    by (simp add: before_def dc_group_def eval_simps dc1_cfg_def worker_down_api_def)
  then obtain data where
    3: "before (python_env worker_down_api ControlWorker) dc1_cfg ''dc1'' ''worker'' = Inr data"
    by blast
  have 4: "role_tag dc1_cfg ''dc1'' ''worker'' = Inr (Some ''mi-worker'')"
    by (simp add: dc1_parts)
  have 5: "role_hostvars dc1_cfg ''dc1'' ''worker'' =
             Inr [''role'' \<mapsto> ''worker'', ''dc'' \<mapsto> ''dc1'', ''consul_dc'' \<mapsto> ''dc1'']"
    by (simp add: dc1_parts)
  have 6: "hosts_query dc1_cfg ''dc1'' (Some ''mi-worker'') = Inr ''datacenter=dc1 and tag=mi-worker''"
    by (simp add: hosts_query_def dc1_cfg_def cfg_simps format_s_def)
  have 7: "api dc1_cfg ''dc1'' =
             Inr \<lparr>kw_password = Some ''secret'', kw_url = Some ''https://ovirt.example.com/api'',
                  kw_username = Some ''admin@internal'', kw_ca_file = None, kw_insecure = None\<rparr>"
    by (simp add: api_def dc1_cfg_def cfg_simps)
  have 8: "api_vms_list (python_env worker_down_api ControlWorker)
     \<lparr>kw_password = Some ''secret'', kw_url = Some ''https://ovirt.example.com/api'',
      kw_username = Some ''admin@internal'', kw_ca_file = None, kw_insecure = None\<rparr>
     ''datacenter=dc1 and tag=mi-worker'' = Inl ConnectionError"
    by (simp add: python_env_def worker_down_api_def failing_api_def)
  show ?thesis
    using api_failure_aborts [OF 1 2 3 4 5 6 7 8] 8 by simp
qed

subsection \<open>The query expression\<close>

lemma hosts_query_init:
  assumes "dc \<in> set (map fst (file_sections f))" "dc \<noteq> []" "dc \<noteq> DEFAULTSECT"
  shows "hosts_query (OVirtInventory_init f) dc tag =
           and_then (resolved_datacenter f dc) (\<lambda>r. Inr (query_expression r tag))"
proof -
  obtain sd where sd: "map_of (file_sections f) dc = Some sd"
    using map_of_section [OF assms(1)] by blast
  have n: "OVIRT_DC \<noteq> ''__name__''" by (simp add: key_defs)
  obtain sd' where s: "map_of (cp_sections (OVirtInventory_init f)) dc = Some sd'"
    using sd by (simp add: OVirtInventory_init_def map_of_section_dict)
  note c = chainmap_init [OF sd n init_defaults_ovirt_dc]
  note h = has_option_init [OF sd n init_defaults_ovirt_dc assms(2,3)]
  show ?thesis
  proof (cases "case sd OVIRT_DC of Some v \<Rightarrow> Some v | None \<Rightarrow> file_defaults f OVIRT_DC")
    case None
    then show ?thesis
      using sd h
      by (simp add: hosts_query_def resolved_datacenter_def configured_def query_expression_def
          format_s_def split: option.splits)
  next
    case (Some rawval)
    then have "configured f dc OVIRT_DC = Some rawval"
      using sd by (simp add: configured_def)
    moreover have "has_option (OVirtInventory_init f) dc OVIRT_DC"
      using h Some by simp
    moreover have "config_get (OVirtInventory_init f) dc OVIRT_DC =
        and_then (interpolate (OVirtInventory_init f) dc OVIRT_DC rawval) (\<lambda>s. Inr (Some s))"
      using c s Some by (simp add: config_get_cases)
    ultimately show ?thesis
      by (cases "interpolate (OVirtInventory_init f) dc OVIRT_DC rawval")
        (simp_all add: hosts_query_def resolved_datacenter_def query_expression_def format_s_def
          split: option.splits)
  qed
qed

lemma resolved_plain:
  assumes "configured f dc OVIRT_DC = Some rawval" "CHR ''%'' \<notin> set rawval"
  shows "resolved_datacenter f dc = Inr rawval"
  using assms
  by (simp add: resolved_datacenter_def interpolate_def interpolate_plain
      MAX_INTERPOLATION_DEPTH_def)

text \<open>
  Claim C6. For a section \<open>dc\<close> of the file (the parser admits neither the empty name nor
  \<open>DEFAULT\<close> as the name of a section), the query \<open>hosts\<close> builds is \<open>datacenter=<resolved>\<close>
  without a tag and \<open>datacenter=<resolved> and tag=<tagname>\<close> with one, and that
  expression is the query \<open>hosts\<close> hands to the API. The resolved name is the section name
  when \<open>ovirt_dc\<close> is not configured for the section, and the override otherwise: the
  configured text itself when it holds no \<open>%\<close>, in general what the parser's interpolation
  makes of it. When the interpolation raises, \<open>hosts\<close> raises and no query is sent. In the
  witness the override \<open>Production\<close> is taken as it is, \<open>dc-%(ovirt_username)s\<close> becomes
  \<open>dc-admin@internal\<close>, and \<open>100%\<close> raises \<open>InterpolationSyntaxError\<close>.
\<close>

theorem hosts_query_expression:
  assumes "dc \<in> set (map fst (file_sections f))" "dc \<noteq> []" "dc \<noteq> DEFAULTSECT"
  shows "hosts_query (OVirtInventory_init f) dc tag =
           and_then (resolved_datacenter f dc) (\<lambda>r. Inr (query_expression r tag)) \<and>
         hosts en (OVirtInventory_init f) dc tag =
           and_then (resolved_datacenter f dc) (\<lambda>r.
           and_then (api (OVirtInventory_init f) dc) (\<lambda>kwargs.
           and_then (api_vms_list en kwargs (query_expression r tag))
             (\<lambda>vms. for_each (hosts_vm en (OVirtInventory_init f) dc) vms []))) \<and>
         (\<forall>rawval. configured f dc OVIRT_DC = Some rawval \<and> CHR ''%'' \<notin> set rawval \<longrightarrow>
            resolved_datacenter f dc = Inr rawval) \<and>
         (configured f dc OVIRT_DC = None \<longrightarrow> resolved_datacenter f dc = Inr dc)"
proof -
  have "hosts en (OVirtInventory_init f) dc tag =
           and_then (resolved_datacenter f dc) (\<lambda>r.
           and_then (api (OVirtInventory_init f) dc) (\<lambda>kwargs.
           and_then (api_vms_list en kwargs (query_expression r tag))
             (\<lambda>vms. for_each (hosts_vm en (OVirtInventory_init f) dc) vms [])))"
    unfolding hosts_def hosts_query_init [OF assms]
    by (cases "resolved_datacenter f dc") simp_all
  then show ?thesis
    using hosts_query_init [OF assms, of tag] resolved_plain [of f dc]
    by (simp add: resolved_datacenter_def)
qed

theorem hosts_query_expression_witness:
  "hosts_query (OVirtInventory_init (alias_file ''Production'')) ''dc1'' (Some ''mi-control'') =
     Inr ''datacenter=Production and tag=mi-control'' \<and>
   hosts_query (OVirtInventory_init (alias_file ''Production'')) ''dc1'' None =
     Inr ''datacenter=Production'' \<and>
   hosts_query (OVirtInventory_init (alias_file ''dc-%(ovirt_username)s'')) ''dc1''
     (Some ''mi-control'') = Inr ''datacenter=dc-admin@internal and tag=mi-control'' \<and>
   hosts_query (OVirtInventory_init (alias_file ''100%'')) ''dc1'' (Some ''mi-control'') =
     Inl (InterpolationSyntaxError ''ovirt_dc'' ''dc1'')"
proof -
  have 1: "''dc1'' \<in> set (map fst (file_sections (alias_file name)))"
    and 2: "''dc1'' \<noteq> []" and 3: "''dc1'' \<noteq> DEFAULTSECT" for name
    by (simp_all add: alias_file_def DEFAULTSECT_def)
  have c: "configured (alias_file name) ''dc1'' OVIRT_DC = Some name" for name
    by (simp add: configured_def alias_file_def)
  have r: "resolved_datacenter (alias_file ''Production'') ''dc1'' = Inr ''Production''"
    using hosts_query_expression [OF 1 2 3, of "''Production''"] c [of "''Production''"]
    by simp
  have i: "resolved_datacenter (alias_file ''dc-%(ovirt_username)s'') ''dc1'' =
             Inr ''dc-admin@internal''"
    unfolding resolved_datacenter_def c option.case
    by (simp add: interpolate_def chainmap_def OVirtInventory_init_def
        section_dict_def alias_file_def credentials_def key_defs MAX_INTERPOLATION_DEPTH_def
        interpolate_simps)
  have e: "resolved_datacenter (alias_file ''100%'') ''dc1'' =
             Inl (InterpolationSyntaxError ''ovirt_dc'' ''dc1'')"
    unfolding resolved_datacenter_def c option.case
    by (simp add: interpolate_def key_defs MAX_INTERPOLATION_DEPTH_def interpolate_simps)
  show ?thesis
    using hosts_query_expression [OF 1 2 3, of "''Production''" "Some ''mi-control''"]
      hosts_query_expression [OF 1 2 3, of "''Production''" None]
      hosts_query_expression [OF 1 2 3, of "''dc-%(ovirt_username)s''" "Some ''mi-control''"]
      hosts_query_expression [OF 1 2 3, of "''100%''" "Some ''mi-control''"]
    by (simp add: r i e query_expression_def)
qed

subsection \<open>The keys of a group\<close>

lemma shapes_extend_hosts:
  assumes "extend_hosts key hs data = Inr data'"
  shows "shapes data' = shapes data"
proof -
  from assms obtain e old where e: "data key = Some e" "g_hosts e = Some old"
    and d: "data' = data(key \<mapsto> e\<lparr>g_hosts := Some (old @ hs)\<rparr>)"
    unfolding extend_hosts_Inr by blast
  show ?thesis unfolding d by (intro ext) (simp add: shapes_def e)
qed

lemma shapes_set_hostvars:
  assumes "set_hostvars v h data = Inr data'"
  shows "shapes data' = shapes data"
proof -
  from assms obtain e hv where e: "data ''_meta'' = Some e"
    and d: "data' = data(''_meta'' \<mapsto> e\<lparr>g_hostvars := Some (hv(h \<mapsto> v))\<rparr>)"
    unfolding set_hostvars_Inr by blast
  show ?thesis unfolding d by (intro ext) (simp add: shapes_def e)
qed

lemma shapes_set_var:
  assumes "set_var key name x data = Inr data'"
  shows "shapes data' = shapes data"
proof -
  from assms obtain e vs where e: "data key = Some e" "g_vars e = Some vs"
    and d: "data' = data(key \<mapsto> e\<lparr>g_vars := Some (vs(name \<mapsto> x))\<rparr>)"
    unfolding set_var_Inr by blast
  show ?thesis unfolding d by (intro ext) (simp add: shapes_def e)
qed

lemma shapes_for_each_set_hostvars:
  assumes "for_each (set_hostvars v) hs data = Inr data'"
  shows "shapes data' = shapes data"
  using assms
  by (rule for_each_invariant [where I = "\<lambda>d. shapes d = shapes data"])
    (simp_all add: shapes_set_hostvars)

lemma shapes_ensure_group:
  "shapes (ensure_group g data) =
     (if shapes data g = None then (shapes data)(g \<mapsto> (True, False)) else shapes data)"
  by (auto simp: ensure_group_def shapes_def fun_eq_iff)

lemma shapes_inventory_role:
  assumes "inventory_role en cfg dc role data = Inr data'"
  shows "shapes data' = shapes (ensure_group (''role='' @ role) data)"
  using assms
  by (auto simp: inventory_role_def and_then_eq_Inr Let_def format_s_def
      dest!: shapes_extend_hosts shapes_for_each_set_hostvars)

lemma shaped_inventory_role:
  assumes "inventory_role en cfg dc role data = Inr data'" "shaped P (shapes data)"
  shows "shaped P (shapes data')"
  using assms(2) unfolding shapes_inventory_role [OF assms(1)] shapes_ensure_group
  by (auto simp: shaped_def)

lemma shaped_inventory_dc:
  assumes "inventory_dc en cfg dc data = Inr data'" "shaped P (shapes data)"
  shows "shaped (insert dc P) (shapes data')"
proof -
  from assms(1) obtain vs data1 where
    d1: "set_var dc ''dc'' (PyStr dc)
           (data(dc \<mapsto> \<lparr>g_hosts = Some [], g_vars = Some vs, g_hostvars = None\<rparr>)) = Inr data1"
    and l: "for_each (inventory_role en cfg dc) (ROLES_keys (roles_order en)) data1 = Inr data'"
    by (auto simp: inventory_dc_def and_then_eq_Inr)
  have "shapes data1 = (shapes data)(dc \<mapsto> (True, True))"
    unfolding shapes_set_var [OF d1] by (auto simp: shapes_def fun_eq_iff)
  with assms(2) have "shaped (insert dc P) (shapes data1)"
    by (auto simp: shaped_def)
  with l show ?thesis
    by (rule for_each_invariant [where I = "\<lambda>d. shaped (insert dc P) (shapes d)"])
      (simp add: shaped_inventory_role)
qed

lemma shaped_inventory:
  assumes "inventory en cfg = Inr data"
  shows "shaped (set (datacenters cfg)) (shapes data)"
proof -
  have "shaped (set []) (shapes initial_data)"
    by (simp add: shaped_def shapes_def initial_data_def)
  with assms [unfolded inventory_def]
  have "shaped (set ([] @ datacenters cfg)) (shapes data)"
    by (rule for_each_snoc_invariant [where I = "\<lambda>p d. shaped (set p) (shapes d)"])
      (simp add: shaped_inventory_dc)
  then show ?thesis by simp
qed

text \<open>
  Claim C7 as stated fails: the group of a role is created as \<open>{'hosts': []}\<close>, without
  \<open>vars\<close>. In the scenario of claim C1 the group \<open>role=control\<close> has no key \<open>vars\<close>.
\<close>

theorem role_group_without_vars:
  "vars_of ''role=control'' (inventory (python_env control_vm_api ControlWorker) dc1_cfg) =
     Inr (Some None)"
  by (simp add: eval_simps dc1_cfg_def control_vm_api_def)

text \<open>
  Claim C7, amended: in every document \<open>inventory\<close> returns, the group of every datacenter
  of the configuration has both a \<open>hosts\<close> list and a \<open>vars\<close> mapping, and every other
  top-level group but \<open>_meta\<close> (the groups \<open>role=<role>\<close>) has a \<open>hosts\<close> list and no
  \<open>vars\<close>.
\<close>

theorem groups_hosts_and_vars:
  assumes "inventory en cfg = Inr data"
  shows "(\<forall>dc\<in>set (datacenters cfg).
            \<exists>e hs vs. data dc = Some e \<and> g_hosts e = Some hs \<and> g_vars e = Some vs) \<and>
         (\<forall>k e. data k = Some e \<and> k \<notin> set (datacenters cfg) \<and> k \<noteq> ''_meta'' \<longrightarrow>
            (\<exists>hs. g_hosts e = Some hs) \<and> g_vars e = None)"
  using shaped_inventory [OF assms]
  by (fastforce simp: shaped_def shapes_def)

theorem groups_hosts_and_vars_witness:
  "\<exists>data. inventory (python_env control_vm_api ControlWorker) ssh_cfg = Inr data \<and>
     (\<exists>e hs vs. data ''dc1'' = Some e \<and> g_hosts e = Some hs \<and> g_vars e = Some vs) \<and>
     (\<exists>e hs. data ''role=worker'' = Some e \<and> g_hosts e = Some hs \<and> g_vars e = None)"
proof -
  have "\<exists>data. inventory (python_env control_vm_api ControlWorker) ssh_cfg = Inr data \<and>
          data ''role=worker'' \<noteq> None"
    by (simp add: eval_simps ssh_cfg_def control_vm_api_def int_digits_def)
  then obtain data e where d: "inventory (python_env control_vm_api ControlWorker) ssh_cfg = Inr data"
    and e: "data ''role=worker'' = Some e"
    by blast
  have s: "datacenters ssh_cfg = [''dc1'']"
    by (simp add: ssh_cfg_def cfg_simps)
  from groups_hosts_and_vars [OF d] e s d show ?thesis
    by auto
qed

subsection \<open>VMs that are not up\<close>

lemma ip_only_up: "ip (only_up en) cfg dc v = ip en cfg dc v"
  by (simp add: ip_def only_up_def)

lemma hosts_vm_only_up: "hosts_vm (only_up en) cfg dc = hosts_vm en cfg dc"
  by (intro ext) (simp add: hosts_vm_def ip_only_up)

lemma for_each_filter_up:
  "for_each (hosts_vm en cfg dc) (filter (\<lambda>v. state v = ''up'') vms) hs =
   for_each (hosts_vm en cfg dc) vms hs"
proof (induction vms arbitrary: hs)
  case Nil
  show ?case by simp
next
  case (Cons v vms)
  show ?case
  proof (cases "state v = ''up''")
    case True
    with Cons show ?thesis by (simp cong: sum.case_cong add: and_then_def)
  next
    case False
    then have "hosts_vm en cfg dc v hs = Inr hs" by (simp add: hosts_vm_def)
    with False Cons show ?thesis by simp
  qed
qed

lemma hosts_only_up: "hosts (only_up en) cfg dc tag = hosts en cfg dc tag"
proof -
  have "and_then (api_vms_list (only_up en) kwargs query) (\<lambda>vms. for_each (hosts_vm en cfg dc) vms [])
      = and_then (api_vms_list en kwargs query) (\<lambda>vms. for_each (hosts_vm en cfg dc) vms [])"
    for kwargs query
    by (cases "api_vms_list en kwargs query") (simp_all add: only_up_def for_each_filter_up)
  then show ?thesis by (simp add: hosts_def hosts_vm_only_up)
qed

lemma only_up_fields:
  "py_int (only_up en) = py_int en"
  "regex_compile (only_up en) = regex_compile en"
  "roles_order (only_up en) = roles_order en"
  by (simp_all add: only_up_def)

lemma convert_only_up: "convert (only_up en) = convert en"
  by (intro ext) (simp add: convert_def only_up_fields split: option.splits)

lemma dc_var_only_up: "dc_var (only_up en) cfg dc = dc_var en cfg dc"
  by (intro ext) (simp add: dc_var_def convert_only_up)

lemma inventory_role_only_up: "inventory_role (only_up en) cfg dc = inventory_role en cfg dc"
  by (intro ext) (simp add: inventory_role_def hosts_only_up)

lemma inventory_dc_only_up: "inventory_dc (only_up en) cfg = inventory_dc en cfg"
proof -
  have "roles_order (only_up en) = roles_order en" by (simp add: only_up_def)
  then show ?thesis
    by (intro ext) (simp add: inventory_dc_def dc_var_only_up inventory_role_only_up)
qed

text \<open>
  Claim C8. For every configuration and every API, \<open>inventory\<close> gives the same result,
  document or error, as it gives when every VM whose state is not exactly \<open>up\<close> is
  deleted from the answers of the API: such a VM adds no address to any host list and
  causes no error.
\<close>

theorem down_vms_contribute_nothing:
  "inventory (only_up en) cfg = inventory en cfg"
  by (simp add: inventory_def inventory_dc_only_up)

subsection \<open>The flag \<open>insecure\<close>\<close>

text \<open>
  Claim C9. For a section in which \<open>ovirt_api_insecure\<close> is set, the configured value, as
  \<open>get\<close> returns it, is a string \<open>s\<close>, and \<open>api\<close> passes \<open>insecure = True\<close> when \<open>s\<close> is not
  empty and \<open>insecure = False\<close> when \<open>s\<close> is the empty string. In the witness \<open>false\<close> gives
  \<open>True\<close>, the empty value gives \<open>False\<close>, and so does \<open>%(nothing)s\<close> where the option
  \<open>nothing\<close> is empty: \<open>get\<close> interpolates, and returns the empty string.
\<close>

theorem api_insecure_flag:
  assumes "has_option (OVirtInventory_init f) dc OVIRT_API_INSECURE"
    and "api (OVirtInventory_init f) dc = Inr kwargs"
  shows "\<exists>s. config_get (OVirtInventory_init f) dc OVIRT_API_INSECURE = Inr (Some s) \<and>
             kw_insecure kwargs = Some (s \<noteq> [])"
proof -
  from assms(2) obtain v where
    v: "config_get (OVirtInventory_init f) dc OVIRT_API_INSECURE = Inr v"
    and k: "kw_insecure kwargs = Some (py_bool v)"
    using assms(1) by (auto simp: api_def and_then_eq_Inr split: if_splits)
  from get_string [OF v init_defaults_insecure] obtain s where "v = Some s" by blast
  with v k show ?thesis by (simp add: py_bool_def)
qed

theorem api_insecure_flag_witness:
  "has_option (insecure_cfg ''false'') ''dc1'' OVIRT_API_INSECURE \<and>
   (\<exists>kwargs. api (insecure_cfg ''false'') ''dc1'' = Inr kwargs \<and> kw_insecure kwargs = Some True) \<and>
   (\<exists>kwargs. api (insecure_cfg []) ''dc1'' = Inr kwargs \<and> kw_insecure kwargs = Some False) \<and>
   (\<exists>kwargs. api insecure_ref_cfg ''dc1'' = Inr kwargs \<and> kw_insecure kwargs = Some False)"
proof -
  have 1: "has_option (insecure_cfg v) ''dc1'' OVIRT_API_INSECURE" for v
    by (simp add: insecure_cfg_def cfg_simps)
  have 2: "\<exists>kwargs. api (insecure_cfg ''false'') ''dc1'' = Inr kwargs"
    "\<exists>kwargs. api (insecure_cfg []) ''dc1'' = Inr kwargs"
    by (simp_all add: api_def insecure_cfg_def cfg_simps)
  have 3: "config_get (insecure_cfg ''false'') ''dc1'' OVIRT_API_INSECURE = Inr (Some ''false'')"
    "config_get (insecure_cfg []) ''dc1'' OVIRT_API_INSECURE = Inr (Some [])"
    by (simp_all add: insecure_cfg_def cfg_simps)
  have 4: "has_option insecure_ref_cfg ''dc1'' OVIRT_API_INSECURE"
    by (simp add: insecure_ref_cfg_def cfg_simps)
  have 5: "config_get insecure_ref_cfg ''dc1'' OVIRT_API_INSECURE = Inr (Some [])"
    by (simp add: insecure_ref_cfg_def cfg_simps interpolate_simps)
  have 6: "\<exists>kwargs. api insecure_ref_cfg ''dc1'' = Inr kwargs"
    by (simp add: api_def 5 4) (simp add: insecure_ref_cfg_def cfg_simps)
  obtain k1 where k1: "api (insecure_cfg ''false'') ''dc1'' = Inr k1" using 2 by blast
  obtain k2 where k2: "api (insecure_cfg []) ''dc1'' = Inr k2" using 2 by blast
  obtain k3 where k3: "api insecure_ref_cfg ''dc1'' = Inr k3" using 6 by blast
  have "kw_insecure k1 = Some True"
    using api_insecure_flag [OF 1 [unfolded insecure_cfg_def ini_file_def]
        k1 [unfolded insecure_cfg_def ini_file_def]]
      3(1) [unfolded insecure_cfg_def ini_file_def]
    by auto
  moreover have "kw_insecure k2 = Some False"
    using api_insecure_flag [OF 1 [unfolded insecure_cfg_def ini_file_def]
        k2 [unfolded insecure_cfg_def ini_file_def]]
      3(2) [unfolded insecure_cfg_def ini_file_def]
    by auto
  moreover have "kw_insecure k3 = Some False"
    using api_insecure_flag [OF 4 [unfolded insecure_ref_cfg_def ini_file_def]
        k3 [unfolded insecure_ref_cfg_def ini_file_def]]
      5 [unfolded insecure_ref_cfg_def ini_file_def]
    by auto
  ultimately show ?thesis using 1 k1 k2 k3 by simp
qed

subsection \<open>The dots of the default pattern\<close>

text \<open>
  Claim C10. The dots of the default pattern are not escaped: it matches \<open>10a0b0c5\<close>, so
  under a datacenter with the default configuration \<open>ip\<close> returns that string as the address
  of a VM that reports it, and \<open>inventory\<close> lists it as a host.
\<close>

theorem default_regex_accepts_undotted:
  "(case re_compile default_ip_regex of Inl e \<Rightarrow> False | Inr pattern \<Rightarrow> pattern ''10a0b0c5'') \<and>
   ip (python_env undotted_api ord) dc1_cfg ''dc1'' (one_ip_vm ''up'' ''nic1'' ''10a0b0c5'') =
     Inr (Some ''10a0b0c5'') \<and>
   hosts_of ''dc1'' (inventory (python_env undotted_api ord) dc1_cfg) =
     Inr (Some (Some [''10a0b0c5'']))"
  by (cases ord) (simp_all add: eval_simps dc1_cfg_def undotted_api_def)

end
